theory Spec2Isabelle
  imports Main "HOL-Library.Multiset"
begin

section \<open>JavaScript built-ins used by the sources\<close>

text \<open>
  Strings are lists of 8-bit code units. Case mapping and character classes are the
  ASCII ones; the whitespace class of \<^verbatim>\<open>\s\<close> and of \<^verbatim>\<open>trim\<close> is the part of the
  JavaScript class that fits in one code unit (TAB, LF, VT, FF, CR, space, NBSP).
\<close>

definition isUpper :: "char \<Rightarrow> bool" where
  "isUpper c = (let n = (of_char c :: nat) in 65 \<le> n \<and> n \<le> 90)"

definition isLower :: "char \<Rightarrow> bool" where
  "isLower c = (let n = (of_char c :: nat) in 97 \<le> n \<and> n \<le> 122)"

definition isDigit :: "char \<Rightarrow> bool" where
  "isDigit c = (let n = (of_char c :: nat) in 48 \<le> n \<and> n \<le> 57)"

definition isAlnum :: "char \<Rightarrow> bool" where
  \<comment> \<open>the regular-expression class \<^verbatim>\<open>[a-zA-Z0-9]\<close>\<close>
  "isAlnum c = (isLower c \<or> isUpper c \<or> isDigit c)"

definition isSpace :: "char \<Rightarrow> bool" where
  "isSpace c = (let n = (of_char c :: nat) in (9 \<le> n \<and> n \<le> 13) \<or> n = 32 \<or> n = 160)"

definition lowerChar :: "char \<Rightarrow> char" where
  "lowerChar c = (if isUpper c then char_of ((of_char c :: nat) + 32) else c)"

definition upperChar :: "char \<Rightarrow> char" where
  "upperChar c = (if isLower c then char_of ((of_char c :: nat) - 32) else c)"

definition toLowerCase :: "string \<Rightarrow> string" where
  "toLowerCase s = map lowerChar s"

definition startsWith :: "string \<Rightarrow> string \<Rightarrow> bool" where
  "startsWith s p = (take (length p) s = p)"

fun strIncludes :: "string \<Rightarrow> string \<Rightarrow> bool" where
  "strIncludes [] p = (p = [])"
| "strIncludes (c # s) p = (startsWith (c # s) p \<or> strIncludes s p)"

definition trim :: "string \<Rightarrow> string" where
  "trim s = rev (dropWhile isSpace (rev (dropWhile isSpace s)))"

text \<open>\<^verbatim>\<open>x || d\<close> for a string-valued property: absent and empty are both falsy.\<close>

definition truthy :: "string option \<Rightarrow> bool" where
  "truthy v = (case v of None \<Rightarrow> False | Some s \<Rightarrow> s \<noteq> [])"

definition orElse :: "string option \<Rightarrow> string \<Rightarrow> string" where
  "orElse v d = (case v of None \<Rightarrow> d | Some s \<Rightarrow> if s = [] then d else s)"

section \<open>Errors\<close>

text \<open>
  What the remote client (axios) throws: either the remote answered with a status and
  possibly a message, or no response was received.
\<close>

datatype http_failure = HttpStatus nat "string option" | NoResponse string

text \<open>
  The sources throw plain \<^verbatim>\<open>Error\<close> objects that differ in their message only. One
  constructor stands for each message; the operation name, status and remote message
  are its arguments.
\<close>

datatype error =
    InvalidUrlError
  | ApiError string nat string
  | NetworkError string string

definition wrapFailure :: "string \<Rightarrow> http_failure \<Rightarrow> error" where
  \<comment> \<open>the \<^verbatim>\<open>catch (error)\<close> block shared by the remote operations\<close>
  "wrapFailure opname f =
     (case f of
        HttpStatus st msg \<Rightarrow> ApiError opname st (orElse msg ''Unknown error'')
      | NoResponse msg \<Rightarrow> NetworkError opname msg)"

section \<open>Playlist resolver: identifier from a URL\<close>

text \<open>
  \<^verbatim>\<open>s.match(/LIT([a-zA-Z0-9]+)/)?.[1]\<close> for a literal \<^verbatim>\<open>LIT\<close>: the leftmost position
  where the literal is followed by at least one alphanumeric character; the group
  captures the longest alphanumeric run.
\<close>

fun matchCapture :: "string \<Rightarrow> string \<Rightarrow> string option" where
  "matchCapture lit [] = None"
| "matchCapture lit (c # s) =
     (let cap = takeWhile isAlnum (drop (length lit) (c # s))
      in if startsWith (c # s) lit \<and> cap \<noteq> [] then Some cap else matchCapture lit s)"

definition httpLiteral :: string where
  "httpLiteral = ''open.spotify.com/playlist/''"

definition uriLiteral :: string where
  "uriLiteral = ''spotify:playlist:''"

definition extractPlaylistIdFromUrl :: "string \<Rightarrow> error + string" where
  "extractPlaylistIdFromUrl url =
     (let httpMatch = matchCapture httpLiteral url;
          uriMatch = matchCapture uriLiteral url
      in case httpMatch of
           Some playlistId \<Rightarrow> Inr playlistId
         | None \<Rightarrow> (case uriMatch of
                      Some playlistId \<Rightarrow> Inr playlistId
                    | None \<Rightarrow> Inl InvalidUrlError))"

text \<open>
  The two accepted forms, stated by position: at index \<open>i\<close> the string continues with
  the literal and then with the identifier \<open>pid\<close>, a non-empty alphanumeric run that
  cannot be extended.
\<close>

definition formAt :: "string \<Rightarrow> string \<Rightarrow> nat \<Rightarrow> string \<Rightarrow> bool" where
  "formAt lit s i pid =
     (take (length lit) (drop i s) = lit \<and>
      pid = takeWhile isAlnum (drop (i + length lit) s) \<and> pid \<noteq> [])"

definition inForm :: "string \<Rightarrow> string \<Rightarrow> bool" where
  "inForm lit s =
     list_ex (\<lambda>i. formAt lit s i (takeWhile isAlnum (drop (i + length lit) s))) [0..<length s]"

definition webLinkForm :: "string \<Rightarrow> bool" where
  "webLinkForm s = inForm httpLiteral s"

definition uriForm :: "string \<Rightarrow> bool" where
  "uriForm s = inForm uriLiteral s"

section \<open>Numbers as text\<close>

text \<open>
  Numbers are unbounded integers (the values the sources handle are years, track counts
  and millisecond durations). \<^verbatim>\<open>Number.prototype.toString\<close> on an integer writes its
  decimal digits, with a minus sign when negative.
\<close>

definition digitChar :: "nat \<Rightarrow> char" where
  "digitChar d = char_of (48 + d)"

fun natToString :: "nat \<Rightarrow> string" where
  "natToString n = (if n < 10 then [digitChar n] else natToString (n div 10) @ [digitChar (n mod 10)])"

declare natToString.simps [simp del]

definition numberToString :: "int \<Rightarrow> string" where
  "numberToString i = (if i < 0 then CHR ''-'' # natToString (nat (- i)) else natToString (nat i))"

definition padStart :: "nat \<Rightarrow> char \<Rightarrow> string \<Rightarrow> string" where
  "padStart n c s = replicate (n - length s) c @ s"

text \<open>
  \<^verbatim>\<open>parseInt(v)\<close> without a radix; \<open>None\<close> is NaN. An absent value is converted to the
  text \<^verbatim>\<open>undefined\<close> first. Leading whitespace is skipped, one sign is accepted, a
  \<^verbatim>\<open>0x\<close> prefix selects radix 16, and the longest run of digits of the radix is read.
\<close>

definition digitValue :: "char \<Rightarrow> nat" where
  "digitValue c =
     (if isDigit c then of_char c - 48
      else if isLower c then of_char c - 87
      else if isUpper c then of_char c - 55
      else 36)"

definition parseInt :: "string option \<Rightarrow> int option" where
  "parseInt v =
     (let s = dropWhile isSpace (case v of None \<Rightarrow> ''undefined'' | Some t \<Rightarrow> t);
          neg = (take 1 s = ''-'');
          s1 = (if take 1 s = ''-'' \<or> take 1 s = ''+'' then drop 1 s else s);
          hex = (take 2 s1 = ''0x'' \<or> take 2 s1 = ''0X'');
          radix = (if hex then 16 else 10);
          s2 = (if hex then drop 2 s1 else s1);
          ds = takeWhile (\<lambda>c. digitValue c < radix) s2;
          n = foldl (\<lambda>a c. a * radix + digitValue c) 0 ds
      in if ds = [] then None else Some (if neg then - int n else int n))"

section \<open>Locale-dependent built-ins\<close>

text \<open>
  Date parsing, locale formatting and locale-aware comparison belong to the JavaScript
  runtime, not to the sources; they are parameters of the model.
  \<open>dateYear s\<close> is \<open>None\<close> when \<^verbatim>\<open>new Date(s).getTime()\<close> is NaN and the result of
  \<^verbatim>\<open>getFullYear()\<close> otherwise.
\<close>

record js_env =
  dateYear :: "string \<Rightarrow> int option"
  dateDisplay :: "string \<Rightarrow> string"
  numberDisplay :: "int \<Rightarrow> string"
  localeCompare :: "string \<Rightarrow> string \<Rightarrow> int"

section \<open>Remote data\<close>

record artist =
  artist_name :: "string option"

record album =
  album_name :: "string option"
  album_type :: "string option"
  album_release_date :: "string option"
  album_id :: "string option"

record track =
  track_id :: "string option"
  track_name :: "string option"
  track_artists :: "artist list option"
  track_album :: "album option"
  track_duration_ms :: "int option"
  track_popularity :: "int option"

record owner =
  owner_id :: "string option"
  owner_display_name :: "string option"

record playlist =
  playlist_id :: string
  playlist_name :: "string option"
  playlist_owner :: "owner option"

record playlist_item =
  item_track :: "track option"

record tracks_page =
  page_total :: "int option"
  page_items :: "playlist_item option list option"

section \<open>Remote client\<close>

text \<open>
  Every call of the client is appended to a log, which is the state the operations pass
  along. The client answers a call from the log of the calls made before it and the
  call's own parameters, so that a remote whose answers change over time is covered.
\<close>

datatype request =
    GetSearch string string nat
  | GetPlaylistTracks string nat nat
  | PostPlaylistTracks string "string list"

type_synonym call_log = "request list"

record api_client =
  searchPlaylistsResponse :: "call_log \<Rightarrow> string \<Rightarrow> http_failure + playlist option list"
  searchTracksResponse :: "call_log \<Rightarrow> string \<Rightarrow> http_failure + track list option"
  playlistTracksResponse :: "call_log \<Rightarrow> string \<Rightarrow> nat \<Rightarrow> http_failure + tracks_page option"
  addTracksResponse :: "call_log \<Rightarrow> string \<Rightarrow> string list \<Rightarrow> http_failure + unit"

section \<open>Album finder\<close>

definition trackSearchQuery :: "string \<Rightarrow> string \<Rightarrow> string" where
  "trackSearchQuery trackName artistName =
     ''track:'' @ [CHR 0x22] @ trackName @ [CHR 0x22] @ '' artist:'' @ [CHR 0x22] @ artistName @ [CHR 0x22]"

definition nameContains :: "string option \<Rightarrow> string \<Rightarrow> bool" where
  \<comment> \<open>\<^verbatim>\<open>x.name && x.name.toLowerCase().includes(q.toLowerCase())\<close>\<close>
  "nameContains v q =
     (case v of None \<Rightarrow> False
      | Some n \<Rightarrow> n \<noteq> [] \<and> strIncludes (toLowerCase n) (toLowerCase q))"

definition trackMatches :: "string \<Rightarrow> string \<Rightarrow> track \<Rightarrow> bool" where
  "trackMatches trackName artistName t =
     (let trackNameMatches = nameContains (track_name t) trackName;
          artistMatches =
            (case track_artists t of None \<Rightarrow> False
             | Some as \<Rightarrow> list_ex (\<lambda>a. nameContains (artist_name a) artistName) as)
      in trackNameMatches \<and> artistMatches)"

definition searchTracksByNameAndArtist ::
  "api_client \<Rightarrow> string \<Rightarrow> string \<Rightarrow> call_log \<Rightarrow> (error + track list) \<times> call_log" where
  "searchTracksByNameAndArtist apiClient trackName artistName log =
     (let searchQuery = trackSearchQuery trackName artistName;
          log' = log @ [GetSearch searchQuery ''track'' 50]
      in case searchTracksResponse apiClient log searchQuery of
           Inl failure \<Rightarrow> (Inl (wrapFailure ''Track search'' failure), log')
         | Inr None \<Rightarrow> (Inr [], log')
         | Inr (Some tracks) \<Rightarrow>
             if tracks = [] then (Inr [], log')
             else (Inr (filter (trackMatches trackName artistName) tracks), log'))"

record album_info =
  ai_trackName :: string
  ai_albumName :: string
  ai_releaseDate :: string
  ai_releaseYear :: int
  ai_albumType :: string
  ai_trackArtists :: string
  ai_albumId :: string
  ai_trackId :: string

fun joinWith :: "string \<Rightarrow> string list \<Rightarrow> string" where
  "joinWith sep [] = []"
| "joinWith sep [x] = x"
| "joinWith sep (x # y # ys) = x @ sep @ joinWith sep (y # ys)"

definition artistNames :: "artist list \<Rightarrow> string" where
  \<comment> \<open>\<^verbatim>\<open>artists.map(artist => artist.name).join(', ')\<close>; an absent name joins as empty\<close>
  "artistNames as = joinWith '', '' (map (\<lambda>a. case artist_name a of None \<Rightarrow> [] | Some n \<Rightarrow> n) as)"

definition capitalize :: "string \<Rightarrow> string" where
  "capitalize s = (case s of [] \<Rightarrow> [] | c # r \<Rightarrow> upperChar c # r)"

definition albumField :: "track \<Rightarrow> (album \<Rightarrow> string option) \<Rightarrow> string option" where
  \<comment> \<open>\<^verbatim>\<open>track.album?.field\<close>\<close>
  "albumField t f = (case track_album t of None \<Rightarrow> None | Some a \<Rightarrow> f a)"

definition formatAlbumEntry :: "js_env \<Rightarrow> track \<Rightarrow> album_info" where
  "formatAlbumEntry env t =
     (let albumName = orElse (albumField t album_name) ''Unknown Album'';
          albumType = orElse (albumField t album_type) ''Unknown'';
          parsed =
            (if truthy (albumField t album_release_date)
             then (case dateYear env (the (albumField t album_release_date)) of
                     None \<Rightarrow> (''Unknown'', 0)
                   | Some y \<Rightarrow> (dateDisplay env (the (albumField t album_release_date)), y))
             else (''Unknown'', 0));
          trackArtists =
            (case track_artists t of None \<Rightarrow> ''Unknown Artist'' | Some as \<Rightarrow> artistNames as)
      in \<lparr> ai_trackName = orElse (track_name t) ''Unknown Track'',
           ai_albumName = albumName,
           ai_releaseDate = fst parsed,
           ai_releaseYear = snd parsed,
           ai_albumType = capitalize albumType,
           ai_trackArtists = trackArtists,
           ai_albumId = orElse (albumField t album_id) [],
           ai_trackId = orElse (track_id t) [] \<rparr>)"

definition formatAlbumInformation :: "js_env \<Rightarrow> track list \<Rightarrow> album_info list" where
  "formatAlbumInformation env tracks = map (formatAlbumEntry env) tracks"

text \<open>
  \<^verbatim>\<open>Array.prototype.sort\<close> with a comparison function. The language requires the sort to
  be stable; it is modelled as the stable insertion sort, where an element goes in front
  of the first later element it does not compare greater than.
\<close>

fun sortInsert :: "('a \<Rightarrow> 'a \<Rightarrow> int) \<Rightarrow> 'a \<Rightarrow> 'a list \<Rightarrow> 'a list" where
  "sortInsert cmp x [] = [x]"
| "sortInsert cmp x (y # ys) = (if cmp x y \<le> 0 then x # y # ys else y # sortInsert cmp x ys)"

definition arraySort :: "('a \<Rightarrow> 'a \<Rightarrow> int) \<Rightarrow> 'a list \<Rightarrow> 'a list" where
  "arraySort cmp xs = foldr (sortInsert cmp) xs []"

definition compareAlbums :: "js_env \<Rightarrow> album_info \<Rightarrow> album_info \<Rightarrow> int" where
  "compareAlbums env a b =
     (if ai_releaseYear a \<noteq> ai_releaseYear b then ai_releaseYear a - ai_releaseYear b
      else localeCompare env (ai_albumName a) (ai_albumName b))"

definition sortAlbumsByReleaseYear :: "js_env \<Rightarrow> album_info list \<Rightarrow> album_info list" where
  "sortAlbumsByReleaseYear env albumInfo = arraySort (compareAlbums env) albumInfo"

text \<open>
  \<open>albumTypeFilter\<close> and \<open>beforeYear\<close> are optional (\<open>None\<close> is \<^verbatim>\<open>null\<close>). The guards are
  the source's truthiness tests: an empty filter text and the year 0 are falsy.
\<close>

definition getTrackAlbumInformation ::
  "api_client \<Rightarrow> js_env \<Rightarrow> string \<Rightarrow> string \<Rightarrow> string option \<Rightarrow> int option \<Rightarrow> call_log
     \<Rightarrow> (error + album_info list) \<times> call_log" where
  "getTrackAlbumInformation apiClient env trackName artistName albumTypeFilter beforeYear log =
     (case searchTracksByNameAndArtist apiClient trackName artistName log of
        (Inl e, log') \<Rightarrow> (Inl e, log')
      | (Inr tracks, log') \<Rightarrow>
          (let albumInfo = formatAlbumInformation env tracks;
               albumInfo1 =
                 (if truthy albumTypeFilter
                  then filter (\<lambda>info. toLowerCase (ai_albumType info)
                                       = toLowerCase (the albumTypeFilter)) albumInfo
                  else albumInfo);
               albumInfo2 =
                 (if beforeYear \<noteq> None \<and> beforeYear \<noteq> Some 0
                  then filter (\<lambda>info. ai_releaseYear info > 0
                                     \<and> ai_releaseYear info < the beforeYear) albumInfo1
                  else albumInfo1)
           in (Inr (sortAlbumsByReleaseYear env albumInfo2), log')))"

definition findEarliestAlbumBeforeYear ::
  "api_client \<Rightarrow> js_env \<Rightarrow> string \<Rightarrow> string \<Rightarrow> int \<Rightarrow> call_log
     \<Rightarrow> (error + album_info option) \<times> call_log" where
  "findEarliestAlbumBeforeYear apiClient env trackName artistName beforeYear log =
     (case getTrackAlbumInformation apiClient env trackName artistName
             (Some ''album'') (Some beforeYear) log of
        (Inl e, log') \<Rightarrow> (Inl e, log')
      | (Inr albumInfo, log') \<Rightarrow>
          (Inr (case albumInfo of [] \<Rightarrow> None | first # _ \<Rightarrow> Some first), log'))"

section \<open>CSV records and batch enrichment\<close>

text \<open>A CSV record is an object from column names to text; \<open>None\<close> is \<^verbatim>\<open>undefined\<close>.\<close>

type_synonym csv_record = "string \<Rightarrow> string option"

definition createEnhancedRecord :: "csv_record \<Rightarrow> album_info option \<Rightarrow> csv_record" where
  "createEnhancedRecord inputRecord albumInfo =
     (let enhancedRecord =
            (\<lambda>k. None)
              (''Track Name'' := inputRecord ''Track Name'',
               ''Artist Name'' := inputRecord ''Artist Name'',
               ''Release Year'' := inputRecord ''Release Year'',
               ''Spotify Track ID'' := inputRecord ''Spotify Track ID'')
      in case albumInfo of
           Some info \<Rightarrow>
             enhancedRecord
               (''New Track Name'' \<mapsto> ai_trackName info,
                ''New Album Name'' \<mapsto> ai_albumName info,
                ''New Album Release Year'' \<mapsto> numberToString (ai_releaseYear info),
                ''New Track Spotify ID'' \<mapsto> ai_trackId info)
         | None \<Rightarrow>
             enhancedRecord
               (''New Track Name'' \<mapsto> [],
                ''New Album Name'' \<mapsto> [],
                ''New Album Release Year'' \<mapsto> [],
                ''New Track Spotify ID'' \<mapsto> []))"

text \<open>
  The body of the \<^verbatim>\<open>try\<close> block of \<open>processTrackRecord\<close>, then the function with its
  \<^verbatim>\<open>catch\<close>. \<open>index\<close> and \<open>total'\<close> only feed the progress messages.
\<close>

definition processTrackRecordTry ::
  "api_client \<Rightarrow> js_env \<Rightarrow> csv_record \<Rightarrow> nat \<Rightarrow> nat \<Rightarrow> call_log
     \<Rightarrow> (error + csv_record) \<times> call_log" where
  "processTrackRecordTry apiClient env record index total' log =
     (let trackName = record ''Track Name'';
          artistName = record ''Artist Name'';
          releaseYear = parseInt (record ''Release Year'')
      in if \<not> truthy trackName \<or> \<not> truthy artistName \<or> releaseYear = None
         then (Inr (createEnhancedRecord record None), log)
         else (case findEarliestAlbumBeforeYear apiClient env (the trackName) (the artistName)
                      (the releaseYear) log of
                 (Inl e, log') \<Rightarrow> (Inl e, log')
               | (Inr albumInfo, log') \<Rightarrow> (Inr (createEnhancedRecord record albumInfo), log')))"

definition processTrackRecord ::
  "api_client \<Rightarrow> js_env \<Rightarrow> csv_record \<Rightarrow> nat \<Rightarrow> nat \<Rightarrow> call_log \<Rightarrow> csv_record \<times> call_log" where
  "processTrackRecord apiClient env record index total' log =
     (case processTrackRecordTry apiClient env record index total' log of
        (Inr enhanced, log') \<Rightarrow> (enhanced, log')
      | (Inl e, log') \<Rightarrow> (createEnhancedRecord record None, log'))"

function processAllRecordsLoop ::
  "api_client \<Rightarrow> js_env \<Rightarrow> csv_record list \<Rightarrow> nat \<Rightarrow> csv_record list \<Rightarrow> call_log
     \<Rightarrow> csv_record list \<times> call_log" where
  "processAllRecordsLoop apiClient env records i enhancedRecords log =
     (if i < length records
      then (let r = processTrackRecord apiClient env (records ! i) i (length records) log
            in processAllRecordsLoop apiClient env records (i + 1)
                 (enhancedRecords @ [fst r]) (snd r))
      else (enhancedRecords, log))"
  by pat_completeness auto
termination
  by (relation "measure (\<lambda>(apiClient, env, records, i, enhancedRecords, log). length records - i)")
     auto

declare processAllRecordsLoop.simps [simp del]

definition processAllRecords ::
  "api_client \<Rightarrow> js_env \<Rightarrow> csv_record list \<Rightarrow> call_log \<Rightarrow> csv_record list \<times> call_log" where
  "processAllRecords apiClient env records log =
     processAllRecordsLoop apiClient env records 0 [] log"

text \<open>A row that is emitted without asking the remote: a name is missing or the year does not parse.\<close>

definition invalidRow :: "csv_record \<Rightarrow> bool" where
  "invalidRow record =
     (\<not> truthy (record ''Track Name'') \<or> \<not> truthy (record ''Artist Name'') \<or>
      parseInt (record ''Release Year'') = None)"

section \<open>Playlist resolver: search by name\<close>

definition exactNameMatch :: "string \<Rightarrow> playlist option \<Rightarrow> bool" where
  \<comment> \<open>\<^verbatim>\<open>playlist && playlist.name && playlist.name.toLowerCase() === playlistName.toLowerCase()\<close>\<close>
  "exactNameMatch playlistName p =
     (case p of None \<Rightarrow> False
      | Some pl \<Rightarrow>
          (case playlist_name pl of None \<Rightarrow> False
           | Some n \<Rightarrow> n \<noteq> [] \<and> toLowerCase n = toLowerCase playlistName))"

definition ownerMatch :: "string \<Rightarrow> playlist option \<Rightarrow> bool" where
  \<comment> \<open>\<^verbatim>\<open>playlist.owner && playlist.owner.id && playlist.owner.id.toLowerCase() === owner.toLowerCase()\<close>\<close>
  "ownerMatch ownerName p =
     (case p of None \<Rightarrow> False
      | Some pl \<Rightarrow>
          (case playlist_owner pl of None \<Rightarrow> False
           | Some ow \<Rightarrow>
               (case owner_id ow of None \<Rightarrow> False
                | Some oid \<Rightarrow> oid \<noteq> [] \<and> toLowerCase oid = toLowerCase ownerName)))"

fun dropNulls :: "'a option list \<Rightarrow> 'a list" where
  "dropNulls [] = []"
| "dropNulls (None # xs) = dropNulls xs"
| "dropNulls (Some x # xs) = x # dropNulls xs"

text \<open>
  \<open>owner\<close> is optional (\<open>None\<close> is \<^verbatim>\<open>null\<close>); \<^verbatim>\<open>if (owner)\<close> also takes the empty text
  for no owner. The filters keep only non-null entries, so the result has none.
\<close>

definition searchPlaylistsByName ::
  "api_client \<Rightarrow> string \<Rightarrow> string option \<Rightarrow> call_log \<Rightarrow> (error + playlist list) \<times> call_log" where
  "searchPlaylistsByName apiClient playlistName owner log =
     (let searchQuery =
            (if truthy owner then playlistName @ '' owner:'' @ the owner else playlistName);
          log' = log @ [GetSearch searchQuery ''playlist'' 50]
      in case searchPlaylistsResponse apiClient log searchQuery of
           Inl failure \<Rightarrow> (Inl (wrapFailure ''Playlist search'' failure), log')
         | Inr playlists \<Rightarrow>
             (let exactMatches = filter (exactNameMatch playlistName) playlists;
                  exactMatches1 =
                    (if truthy owner then filter (ownerMatch (the owner)) exactMatches
                     else exactMatches)
              in (Inr (dropNulls exactMatches1), log')))"

section \<open>Track collector\<close>

definition validTrack :: "playlist_item option \<Rightarrow> track option" where
  \<comment> \<open>\<^verbatim>\<open>item && item.track && item.track.id\<close>, then \<^verbatim>\<open>item.track\<close>\<close>
  "validTrack item =
     (case item of None \<Rightarrow> None
      | Some it \<Rightarrow>
          (case item_track it of None \<Rightarrow> None
           | Some t \<Rightarrow> if truthy (track_id t) then Some t else None))"

definition validTracks :: "playlist_item option list \<Rightarrow> track list" where
  "validTracks items = List.map_filter validTrack items"

definition pageLimit :: nat where
  "pageLimit = 50"

definition invalidTrackData :: error where
  "invalidTrackData = NetworkError ''Track retrieval'' ''Invalid track data received from Spotify API''"

definition offsetBelow :: "nat \<Rightarrow> int option \<Rightarrow> bool" where
  \<comment> \<open>\<^verbatim>\<open>offset < total\<close>; false when the total is \<^verbatim>\<open>undefined\<close>\<close>
  "offsetBelow offset total' = (case total' of None \<Rightarrow> False | Some t \<Rightarrow> int offset < t)"

text \<open>
  One iteration of the \<^verbatim>\<open>do ... while (offset < total)\<close> loop per call. A thrown error
  ends the loop; the explicit \<^verbatim>\<open>throw\<close> for a response without data or items is caught
  by the function's own \<^verbatim>\<open>catch\<close> and leaves as a network error.
\<close>

function getPlaylistTracksLoop ::
  "api_client \<Rightarrow> string \<Rightarrow> nat \<Rightarrow> int option \<Rightarrow> track list \<Rightarrow> call_log
     \<Rightarrow> (error + track list) \<times> call_log" where
  "getPlaylistTracksLoop apiClient playlistId offset total' allTracks log =
     (case playlistTracksResponse apiClient log playlistId offset of
        Inl failure \<Rightarrow>
          (Inl (wrapFailure ''Track retrieval'' failure),
           log @ [GetPlaylistTracks playlistId offset pageLimit])
      | Inr None \<Rightarrow> (Inl invalidTrackData, log @ [GetPlaylistTracks playlistId offset pageLimit])
      | Inr (Some page) \<Rightarrow>
          (case page_items page of
             None \<Rightarrow> (Inl invalidTrackData, log @ [GetPlaylistTracks playlistId offset pageLimit])
           | Some items \<Rightarrow>
               if offsetBelow (offset + pageLimit) (if offset = 0 then page_total page else total')
               then getPlaylistTracksLoop apiClient playlistId (offset + pageLimit)
                      (if offset = 0 then page_total page else total')
                      (allTracks @ validTracks items)
                      (log @ [GetPlaylistTracks playlistId offset pageLimit])
               else (Inr (allTracks @ validTracks items),
                     log @ [GetPlaylistTracks playlistId offset pageLimit])))"
  by pat_completeness auto
termination
  by (relation "measures
        [\<lambda>(apiClient, playlistId, offset, total', allTracks, log). if offset = 0 then 1 else 0,
         \<lambda>(apiClient, playlistId, offset, total', allTracks, log).
            (case total' of None \<Rightarrow> 0 | Some t \<Rightarrow> nat (t - int offset))]")
     (auto simp: offsetBelow_def pageLimit_def split: option.splits if_splits)

declare getPlaylistTracksLoop.simps [simp del]

definition getPlaylistTracks ::
  "api_client \<Rightarrow> string \<Rightarrow> call_log \<Rightarrow> (error + track list) \<times> call_log" where
  "getPlaylistTracks apiClient playlistId log =
     getPlaylistTracksLoop apiClient playlistId 0 (Some 0) [] log"

section \<open>Export rows\<close>

definition jsRemainder :: "int \<Rightarrow> int \<Rightarrow> int" where
  \<comment> \<open>the \<^verbatim>\<open>%\<close> operator on integers, for a positive divisor: the sign follows the dividend\<close>
  "jsRemainder a b = (if a < 0 then - ((- a) mod b) else a mod b)"

definition formatDuration :: "int \<Rightarrow> string" where
  "formatDuration duration_ms =
     (let totalSeconds = duration_ms div 1000;
          minutes = totalSeconds div 60;
          seconds = jsRemainder totalSeconds 60
      in numberToString minutes @ '':'' @ padStart 2 (CHR ''0'') (numberToString seconds))"

definition formatTrackRow :: "js_env \<Rightarrow> track \<Rightarrow> csv_record" where
  "formatTrackRow env t =
     (let trackName = orElse (track_name t) ''Unknown Track'';
          artistName =
            (case track_artists t of
               None \<Rightarrow> ''Unknown Artist''
             | Some as \<Rightarrow> if length as > 0 then artistNames as else ''Unknown Artist'');
          albumName = orElse (albumField t album_name) ''Unknown Album'';
          albumYear =
            (if truthy (albumField t album_release_date)
             then (case dateYear env (the (albumField t album_release_date)) of
                     None \<Rightarrow> []
                   | Some y \<Rightarrow> numberToString y)
             else []);
          trackDuration =
            (case track_duration_ms t of
               None \<Rightarrow> []
             | Some ms \<Rightarrow> if ms \<noteq> 0 then formatDuration ms else []);
          trackPopularity =
            (case track_popularity t of None \<Rightarrow> [] | Some p \<Rightarrow> numberDisplay env p);
          spotifyTrackId = orElse (track_id t) []
      in (\<lambda>k. None)
           (''Track Name'' \<mapsto> trackName,
            ''Artist Name'' \<mapsto> artistName,
            ''Album Name'' \<mapsto> albumName,
            ''Album Year'' \<mapsto> albumYear,
            ''Track Duration'' \<mapsto> trackDuration,
            ''Track Popularity'' \<mapsto> trackPopularity,
            ''Spotify Track ID'' \<mapsto> spotifyTrackId))"

definition formatTracksForCsv :: "js_env \<Rightarrow> track list \<Rightarrow> csv_record list" where
  "formatTracksForCsv env tracks = map (formatTrackRow env) tracks"

section \<open>Playlist writer\<close>

text \<open>The candidate identifiers are arbitrary JavaScript values.\<close>

datatype js_value = JString string | JNumber int | JBoolean bool | JNull | JUndefined

definition validTrackId :: "js_value \<Rightarrow> bool" where
  \<comment> \<open>\<^verbatim>\<open>id && typeof id === 'string' && id.trim() !== ''\<close>\<close>
  "validTrackId v = (case v of JString s \<Rightarrow> s \<noteq> [] \<and> trim s \<noteq> [] | _ \<Rightarrow> False)"

definition stringOf :: "js_value \<Rightarrow> string" where
  "stringOf v = (case v of JString s \<Rightarrow> s | _ \<Rightarrow> [])"

record add_result =
  res_successful :: nat
  res_failed :: nat
  res_skipped :: nat

definition batchSize :: nat where
  "batchSize = 100"

function addTracksLoop ::
  "api_client \<Rightarrow> string \<Rightarrow> string list \<Rightarrow> nat \<Rightarrow> nat \<Rightarrow> nat \<Rightarrow> call_log
     \<Rightarrow> (nat \<times> nat) \<times> call_log" where
  "addTracksLoop apiClient playlistId validTrackIds i successful failed log =
     (if i < length validTrackIds
      then (case addTracksResponse apiClient log playlistId
                   (map (\<lambda>tid. ''spotify:track:'' @ tid) (take batchSize (drop i validTrackIds))) of
              Inr posted \<Rightarrow>
                addTracksLoop apiClient playlistId validTrackIds (i + batchSize)
                  (successful + length (take batchSize (drop i validTrackIds))) failed
                  (log @ [PostPlaylistTracks playlistId
                     (map (\<lambda>tid. ''spotify:track:'' @ tid) (take batchSize (drop i validTrackIds)))])
            | Inl batchError \<Rightarrow>
                addTracksLoop apiClient playlistId validTrackIds (i + batchSize)
                  successful (failed + length (take batchSize (drop i validTrackIds)))
                  (log @ [PostPlaylistTracks playlistId
                     (map (\<lambda>tid. ''spotify:track:'' @ tid) (take batchSize (drop i validTrackIds)))]))
      else ((successful, failed), log))"
  by pat_completeness auto
termination
  by (relation "measure (\<lambda>(apiClient, playlistId, validTrackIds, i, successful, failed, log).
        length validTrackIds - i)")
     (auto simp: batchSize_def)

declare addTracksLoop.simps [simp del]

text \<open>
  Nothing in the \<^verbatim>\<open>try\<close> block of \<open>addTracksToPlaylist\<close> throws on a list of values (a
  rejected batch is caught inside the loop), so the function always returns a result.
\<close>

definition addTracksToPlaylist ::
  "api_client \<Rightarrow> string \<Rightarrow> js_value list \<Rightarrow> call_log \<Rightarrow> add_result \<times> call_log" where
  "addTracksToPlaylist apiClient playlistId trackIds log =
     (let validTrackIds = map stringOf (filter validTrackId trackIds);
          skippedCount = length trackIds - length validTrackIds
      in if length validTrackIds = 0
         then (\<lparr> res_successful = 0, res_failed = length trackIds, res_skipped = skippedCount \<rparr>,
               log)
         else (case addTracksLoop apiClient playlistId validTrackIds 0 0 0 log of
                 ((successful, failed), log') \<Rightarrow>
                   (\<lparr> res_successful = successful, res_failed = failed,
                      res_skipped = skippedCount \<rparr>, log')))"

section \<open>Export file names\<close>

definition isIllegalChar :: "char \<Rightarrow> bool" where
  \<comment> \<open>the class \<^verbatim>\<open>[<>:"/\\|?*]\<close>\<close>
  "isIllegalChar c =
     (c \<in> set [CHR ''<'', CHR ''>'', CHR '':'', CHR 0x22, CHR ''/'', CHR 0x5C, CHR ''|'',
               CHR ''?'', CHR ''*''])"

text \<open>
  \<open>replaceRuns P\<close> puts one underscore for every maximal run of characters in \<open>P\<close>: the
  replacement of \<^verbatim>\<open>/\s+/g\<close>, and of \<^verbatim>\<open>/_{2,}/g\<close> too, since a single underscore is
  replaced by itself.
\<close>

function replaceRuns :: "(char \<Rightarrow> bool) \<Rightarrow> string \<Rightarrow> string" where
  "replaceRuns P [] = []"
| "replaceRuns P (c # s) =
     (if P c then CHR ''_'' # replaceRuns P (dropWhile P s) else c # replaceRuns P s)"
  by pat_completeness auto
termination
  by (relation "measure (\<lambda>(P, s). length s)")
     (auto simp: length_dropWhile_le less_Suc_eq_le)

definition stripUnderscores :: "string \<Rightarrow> string" where
  \<comment> \<open>the replacement of \<^verbatim>\<open>/^_+|_+$/g\<close> by the empty text\<close>
  "stripUnderscores s =
     rev (dropWhile (\<lambda>c. c = CHR ''_'') (rev (dropWhile (\<lambda>c. c = CHR ''_'') s)))"

definition sanitizeFilename :: "string \<Rightarrow> string" where
  "sanitizeFilename filename =
     take 100
       (stripUnderscores
         (replaceRuns (\<lambda>c. c = CHR ''_'')
           (replaceRuns isSpace
             (map (\<lambda>c. if isIllegalChar c then CHR ''_'' else c) filename))))"

text \<open>
  A directory is the list of the file names in it; \<^verbatim>\<open>fs.existsSync\<close> on the joined path
  asks whether the name is among them.
\<close>

type_synonym directory = "string list"

definition existsSync :: "directory \<Rightarrow> string \<Rightarrow> bool" where
  "existsSync dir filename = (filename \<in> set dir)"

definition numberedName :: "string \<Rightarrow> string \<Rightarrow> nat \<Rightarrow> string" where
  "numberedName sanitizedBase extension counter =
     sanitizedBase @ ''_'' @ natToString counter @ extension"

text \<open>
  Reading decimal digits back, the inverse of \<open>natToString\<close>: distinct counters give
  distinct numbered names, which is why the search for a free name ends.
\<close>

definition decodeNat :: "string \<Rightarrow> nat" where
  "decodeNat s = foldl (\<lambda>a c. 10 * a + (of_char c - 48)) 0 s"

lemma decodeNat_natToString: "decodeNat (natToString n) = n"
proof (induction n rule: natToString.induct)
  case (1 n)
  show ?case
  proof (cases "n < 10")
    case True
    then show ?thesis
      by (subst natToString.simps) (simp add: decodeNat_def digitChar_def)
  next
    case False
    with 1 have ih: "decodeNat (natToString (n div 10)) = n div 10" by simp
    have "n mod 10 < 10" by simp
    then have d: "(of_char (digitChar (n mod 10)) :: nat) - 48 = n mod 10"
      by (simp add: digitChar_def)
    have "decodeNat (natToString n) = 10 * decodeNat (natToString (n div 10)) + n mod 10"
      using False d by (subst natToString.simps) (simp add: decodeNat_def)
    with ih show ?thesis by simp
  qed
qed

lemma natToString_inj: "natToString m = natToString n \<Longrightarrow> m = n"
  by (metis decodeNat_natToString)

lemma numberedName_inj: "numberedName b e m = numberedName b e n \<Longrightarrow> m = n"
  by (simp add: numberedName_def natToString_inj)

text \<open>
  The \<^verbatim>\<open>while (fs.existsSync(fullPath))\<close> loop of \<open>generateUniqueFilename\<close>. It ends
  because a directory holds finitely many names: each round uses up one of the numbered
  names that exist from the current counter on.
\<close>

function generateUniqueFilenameLoop ::
  "directory \<Rightarrow> string \<Rightarrow> string \<Rightarrow> string \<Rightarrow> nat \<Rightarrow> string" where
  "generateUniqueFilenameLoop dir sanitizedBase extension filename counter =
     (if existsSync dir filename
      then generateUniqueFilenameLoop dir sanitizedBase extension
             (numberedName sanitizedBase extension counter) (counter + 1)
      else filename)"
  by pat_completeness auto
termination
proof (relation "measure (\<lambda>(dir, sanitizedBase, extension, filename, counter).
          card {k. counter \<le> k \<and> numberedName sanitizedBase extension k \<in> set dir}
          + (if filename \<in> set dir then 1 else 0))", goal_cases)
  case 1
  show ?case by simp
next
  case (2 dir sanitizedBase extension filename counter)
  let ?nn = "numberedName sanitizedBase extension"
  let ?A = "{k. counter \<le> k \<and> ?nn k \<in> set dir}"
  let ?B = "{k. counter + 1 \<le> k \<and> ?nn k \<in> set dir}"
  have "inj ?nn" by (rule injI) (rule numberedName_inj)
  then have "finite (?nn -` set dir)" by (simp add: finite_vimageI)
  then have finA: "finite ?A" by (rule rev_finite_subset) auto
  then have finB: "finite ?B" by (rule rev_finite_subset) auto
  have "card ?B + (if ?nn counter \<in> set dir then 1 else 0) = card ?A"
  proof (cases "?nn counter \<in> set dir")
    case True
    then have "?A = insert counter ?B" by (auto simp: Suc_le_eq le_less)
    moreover have "counter \<notin> ?B" by simp
    ultimately show ?thesis using finB True by simp
  next
    case False
    then have "?A = ?B" by (auto simp: Suc_le_eq le_less)
    with False show ?thesis by simp
  qed
  with 2 show ?case by (simp add: existsSync_def)
qed

declare generateUniqueFilenameLoop.simps [simp del]

text \<open>
  The function returns the file name together with its path joined to the directory; the
  model returns the file name.
\<close>

definition generateUniqueFilename :: "string \<Rightarrow> string \<Rightarrow> directory \<Rightarrow> string" where
  "generateUniqueFilename baseFilename extension dir =
     (let sanitizedBase = sanitizeFilename baseFilename
      in generateUniqueFilenameLoop dir sanitizedBase extension (sanitizedBase @ extension) 1)"

section \<open>Vocabulary of the statements\<close>

text \<open>
  \<open>fetch\<close> is the page request of the track collector at an offset. \<open>resultTotal\<close> adds
  the three counters of an add-tracks result. \<open>durationText\<close> is the duration format as
  the specification words it: whole seconds \<open>floor(ms / 1000)\<close>, minutes are the seconds
  \<open>div 60\<close>, then a colon, then the seconds \<open>mod 60\<close> as two digits.
\<close>

definition fetch :: "string \<Rightarrow> nat \<Rightarrow> request" where
  "fetch playlistId offset = GetPlaylistTracks playlistId offset 50"

definition resultTotal :: "add_result \<Rightarrow> nat" where
  "resultTotal r = res_successful r + res_failed r + res_skipped r"

definition twoDigits :: "nat \<Rightarrow> string" where
  "twoDigits n = [digitChar (n div 10 mod 10), digitChar (n mod 10)]"

definition durationText :: "int \<Rightarrow> string" where
  "durationText ms =
     (let totalSeconds = nat (ms div 1000)
      in natToString (totalSeconds div 60) @ '':'' @ twoDigits (totalSeconds mod 60))"

section \<open>Orderings used to state the sort contract\<close>

text \<open>
  A comparison function is consistent when swapping its arguments swaps the sign of the
  result and "not greater" is transitive; this is what the language asks of a comparison
  function for the result of a sort to be determined. \<open>inOrder\<close> is the order of the
  album finder (release year, then album name under the locale comparison) and
  \<open>sameKey\<close> relates albums that the order cannot tell apart.
\<close>

definition consistentComparator :: "('a \<Rightarrow> 'a \<Rightarrow> int) \<Rightarrow> bool" where
  "consistentComparator cmp =
     ((\<forall>a b. cmp a b < 0 \<longleftrightarrow> 0 < cmp b a) \<and>
      (\<forall>a b c. cmp a b \<le> 0 \<and> cmp b c \<le> 0 \<longrightarrow> cmp a c \<le> 0))"

definition sameKey :: "js_env \<Rightarrow> album_info \<Rightarrow> album_info \<Rightarrow> bool" where
  "sameKey env a b =
     (ai_releaseYear a = ai_releaseYear b \<and> localeCompare env (ai_albumName a) (ai_albumName b) = 0)"

definition inOrder :: "js_env \<Rightarrow> album_info \<Rightarrow> album_info \<Rightarrow> bool" where
  "inOrder env a b =
     (ai_releaseYear a < ai_releaseYear b \<or>
      (ai_releaseYear a = ai_releaseYear b \<and>
       localeCompare env (ai_albumName a) (ai_albumName b) \<le> 0))"

section \<open>Example data\<close>

text \<open>
  A concrete environment and remote for evaluating the operations: the comparison is by
  code unit on lower-cased text, the year of a date is its four leading digits, and the
  track search answers with a 1968 compilation followed by a 1965 regular album.
\<close>

fun codeUnitCompare :: "string \<Rightarrow> string \<Rightarrow> int" where
  "codeUnitCompare [] [] = 0"
| "codeUnitCompare [] (y # ys) = - 1"
| "codeUnitCompare (x # xs) [] = 1"
| "codeUnitCompare (x # xs) (y # ys) =
     (if (of_char x :: nat) < of_char y then - 1
      else if (of_char y :: nat) < of_char x then 1
      else codeUnitCompare xs ys)"

definition exampleEnv :: js_env where
  "exampleEnv =
     \<lparr> dateYear = (\<lambda>s. if length (takeWhile isDigit s) = 4 then Some (int (decodeNat (take 4 s)))
                        else None),
       dateDisplay = (\<lambda>s. s),
       numberDisplay = numberToString,
       localeCompare = (\<lambda>a b. codeUnitCompare (toLowerCase a) (toLowerCase b)) \<rparr>"

definition beatles :: artist where
  "beatles = \<lparr> artist_name = Some ''The Beatles'' \<rparr>"

definition yesterdayOnHelp :: track where
  "yesterdayOnHelp =
     \<lparr> track_id = Some ''t1965'', track_name = Some ''Yesterday'',
       track_artists = Some [beatles],
       track_album = Some \<lparr> album_name = Some ''Help!'', album_type = Some ''album'',
                            album_release_date = Some ''1965-08-06'', album_id = Some ''a1965'' \<rparr>,
       track_duration_ms = Some 125000, track_popularity = Some 80 \<rparr>"

definition yesterdayOnCompilation :: track where
  "yesterdayOnCompilation =
     \<lparr> track_id = Some ''t1968'', track_name = Some ''Yesterday - Remastered'',
       track_artists = Some [beatles],
       track_album = Some \<lparr> album_name = Some ''Hits'', album_type = Some ''compilation'',
                            album_release_date = Some ''1968-01-01'', album_id = Some ''a1968'' \<rparr>,
       track_duration_ms = Some 0, track_popularity = None \<rparr>"

definition yesterdayUndated :: track where
  "yesterdayUndated =
     \<lparr> track_id = Some ''t0'', track_name = Some ''Yesterday'',
       track_artists = Some [beatles],
       track_album = Some \<lparr> album_name = Some ''Bootleg'', album_type = Some ''album'',
                            album_release_date = Some ''unknown'', album_id = Some ''a0'' \<rparr>,
       track_duration_ms = Some 233000, track_popularity = Some 5 \<rparr>"

definition exampleClient :: api_client where
  "exampleClient =
     \<lparr> searchPlaylistsResponse = (\<lambda>log q. Inr []),
       searchTracksResponse = (\<lambda>log q. Inr (Some [yesterdayOnCompilation, yesterdayOnHelp])),
       playlistTracksResponse = (\<lambda>log pid offset. Inr None),
       addTracksResponse = (\<lambda>log pid uris. Inr ()) \<rparr>"

definition exampleAlbums :: "album_info list" where
  "exampleAlbums =
     [formatAlbumEntry exampleEnv yesterdayOnCompilation,
      formatAlbumEntry exampleEnv yesterdayOnHelp,
      formatAlbumEntry exampleEnv (yesterdayOnHelp\<lparr> track_id := Some ''t1965b'' \<rparr>),
      formatAlbumEntry exampleEnv yesterdayUndated]"


definition rowYesterday :: csv_record where
  "rowYesterday =
     map_of [(''Track Name'', ''Yesterday''), (''Artist Name'', ''The Beatles''),
             (''Release Year'', ''1970''), (''Spotify Track ID'', ''abc123'')]"

definition rowUnparsable :: csv_record where
  "rowUnparsable =
     map_of [(''Track Name'', ''Help!''), (''Artist Name'', ''''),
             (''Release Year'', ''n/a''), (''Spotify Track ID'', '''')]"

definition rowYearZero :: csv_record where
  "rowYearZero =
     map_of [(''Track Name'', ''Yesterday''), (''Artist Name'', ''The Beatles''),
             (''Release Year'', ''0''), (''Spotify Track ID'', ''abc123'')]"

definition exampleRows :: "csv_record list" where
  "exampleRows = [rowYesterday, rowUnparsable, rowYesterday]"

definition flakyClient :: api_client where
  "flakyClient =
     exampleClient \<lparr> searchTracksResponse :=
       (\<lambda>log q. if log = [] then searchTracksResponse exampleClient log q
                 else Inl (NoResponse ''socket hang up'')) \<rparr>"

definition undatedClient :: api_client where
  "undatedClient =
     exampleClient \<lparr> searchTracksResponse := (\<lambda>log q. Inr (Some [yesterdayUndated])) \<rparr>"

text \<open>
  Playlists for the name search (a null entry, a longer name, a nameless entry and three
  spellings of the same name), and a playlist of 120 tracks served in pages whose entries
  include a null item, an item without track and a track without identifier.
\<close>

definition alice :: owner where
  "alice = \<lparr> owner_id = Some ''Alice99'', owner_display_name = Some ''Alice'' \<rparr>"

definition bob :: owner where
  "bob = \<lparr> owner_id = Some ''bob'', owner_display_name = None \<rparr>"

definition examplePlaylists :: "playlist option list" where
  "examplePlaylists =
     [Some \<lparr> playlist_id = ''p1'', playlist_name = Some ''My Playlist'', playlist_owner = Some alice \<rparr>,
      None,
      Some \<lparr> playlist_id = ''p2'', playlist_name = Some ''my playlist'', playlist_owner = Some bob \<rparr>,
      Some \<lparr> playlist_id = ''p3'', playlist_name = Some ''My Playlist 2'', playlist_owner = Some alice \<rparr>,
      Some \<lparr> playlist_id = ''p4'', playlist_name = None, playlist_owner = None \<rparr>,
      Some \<lparr> playlist_id = ''p5'', playlist_name = Some ''MY PLAYLIST'', playlist_owner = None \<rparr>]"

definition playlistClient :: api_client where
  "playlistClient = exampleClient \<lparr> searchPlaylistsResponse := (\<lambda>log q. Inr examplePlaylists) \<rparr>"

definition examplePage :: "nat \<Rightarrow> tracks_page" where
  "examplePage offset =
     \<lparr> page_total = (if offset = 0 then Some 120 else None),
       page_items = Some
         [Some \<lparr> item_track = Some (yesterdayOnHelp \<lparr> track_id := Some (natToString offset) \<rparr>) \<rparr>,
          None,
          Some \<lparr> item_track = None \<rparr>,
          Some \<lparr> item_track = Some (yesterdayOnHelp \<lparr> track_id := None \<rparr>) \<rparr>] \<rparr>"

definition pagedClient :: api_client where
  "pagedClient =
     exampleClient \<lparr> playlistTracksResponse := (\<lambda>log pid offset. Inr (Some (examplePage offset))) \<rparr>"

section \<open>Properties of the URL parser\<close>

lemma formAt_Cons_Suc:
  "formAt lit (c # s) (Suc i) pid = formAt lit s i pid"
  by (simp add: formAt_def)

lemma formAt_zero:
  "formAt lit s 0 pid =
     (startsWith s lit \<and> pid = takeWhile isAlnum (drop (length lit) s) \<and> pid \<noteq> [])"
  by (simp add: formAt_def startsWith_def)

lemma formAt_bound:
  assumes "formAt lit s i pid"
  shows "i < length s"
proof (rule ccontr)
  assume "\<not> i < length s"
  then have "drop (i + length lit) s = []" by simp
  with assms show False by (simp add: formAt_def)
qed

lemma inForm_iff: "inForm lit s \<longleftrightarrow> (\<exists>i pid. formAt lit s i pid)"
proof
  assume "inForm lit s"
  then show "\<exists>i pid. formAt lit s i pid"
    by (auto simp: inForm_def list_ex_iff)
next
  assume "\<exists>i pid. formAt lit s i pid"
  then obtain i pid where f: "formAt lit s i pid" by blast
  then have "i < length s" by (rule formAt_bound)
  moreover from f have "formAt lit s i (takeWhile isAlnum (drop (i + length lit) s))"
    by (auto simp: formAt_def)
  ultimately show "inForm lit s"
    by (auto simp: inForm_def list_ex_iff)
qed

lemma matchCapture_None:
  "matchCapture lit s = None \<longleftrightarrow> (\<forall>i pid. \<not> formAt lit s i pid)"
proof (induction s)
  case Nil
  show ?case by (simp add: formAt_def)
next
  case (Cons c s)
  show ?case
  proof (cases "startsWith (c # s) lit \<and> takeWhile isAlnum (drop (length lit) (c # s)) \<noteq> []")
    case True
    then have "formAt lit (c # s) 0 (takeWhile isAlnum (drop (length lit) (c # s)))"
      by (simp add: formAt_zero)
    with True show ?thesis by (auto simp: Let_def)
  next
    case False
    then have z: "\<And>pid. \<not> formAt lit (c # s) 0 pid"
      by (auto simp: formAt_zero)
    have "(\<forall>i pid. \<not> formAt lit (c # s) i pid) \<longleftrightarrow> (\<forall>i pid. \<not> formAt lit s i pid)"
    proof
      assume a: "\<forall>i pid. \<not> formAt lit (c # s) i pid"
      show "\<forall>i pid. \<not> formAt lit s i pid"
      proof (intro allI)
        fix i pid
        from a have "\<not> formAt lit (c # s) (Suc i) pid" by blast
        then show "\<not> formAt lit s i pid" by (simp add: formAt_Cons_Suc)
      qed
    next
      assume a: "\<forall>i pid. \<not> formAt lit s i pid"
      show "\<forall>i pid. \<not> formAt lit (c # s) i pid"
      proof (intro allI)
        fix i pid
        show "\<not> formAt lit (c # s) i pid"
        proof (cases i)
          case 0
          with z show ?thesis by simp
        next
          case (Suc j)
          with a show ?thesis by (simp add: formAt_Cons_Suc)
        qed
      qed
    qed
    with False Cons.IH show ?thesis by (auto simp: Let_def)
  qed
qed

lemma matchCapture_Some:
  "matchCapture lit s = Some pid \<Longrightarrow>
     \<exists>i. formAt lit s i pid \<and> (\<forall>j<i. \<forall>p. \<not> formAt lit s j p)"
proof (induction s)
  case Nil
  then show ?case by simp
next
  case (Cons c s)
  show ?case
  proof (cases "startsWith (c # s) lit \<and> takeWhile isAlnum (drop (length lit) (c # s)) \<noteq> []")
    case True
    with Cons.prems have "formAt lit (c # s) 0 pid"
      by (auto simp: formAt_zero Let_def)
    then show ?thesis by (intro exI[of _ 0]) simp
  next
    case False
    then have z: "\<And>p. \<not> formAt lit (c # s) 0 p"
      by (auto simp: formAt_zero)
    from False Cons.prems have "matchCapture lit s = Some pid"
      by (auto simp: Let_def)
    then obtain i where i: "formAt lit s i pid" "\<forall>j<i. \<forall>p. \<not> formAt lit s j p"
      using Cons.IH by blast
    have "\<forall>j<Suc i. \<forall>p. \<not> formAt lit (c # s) j p"
    proof (intro allI impI)
      fix j p
      assume "j < Suc i"
      show "\<not> formAt lit (c # s) j p"
      proof (cases j)
        case 0
        with z show ?thesis by simp
      next
        case (Suc k)
        with \<open>j < Suc i\<close> i(2) show ?thesis by (simp add: formAt_Cons_Suc)
      qed
    qed
    with i(1) show ?thesis
      by (intro exI[of _ "Suc i"]) (simp add: formAt_Cons_Suc)
  qed
qed

text \<open>
  Claim C9. A string in the web-link form yields the identifier of its leftmost web-link
  occurrence; otherwise a string in the URI form yields the identifier of its leftmost
  URI occurrence; every other string fails with \<open>InvalidUrlError\<close>. The example link
  resolves to \<open>37i9dQZF1DXcBWIGoYBM5M\<close> and \<open>not-a-url\<close> fails.
\<close>

theorem extractPlaylistIdFromUrl_forms:
  "(webLinkForm url \<longrightarrow>
      (\<exists>i pid. extractPlaylistIdFromUrl url = Inr pid \<and> formAt httpLiteral url i pid \<and>
         (\<forall>j<i. \<forall>p. \<not> formAt httpLiteral url j p))) \<and>
   (\<not> webLinkForm url \<and> uriForm url \<longrightarrow>
      (\<exists>i pid. extractPlaylistIdFromUrl url = Inr pid \<and> formAt uriLiteral url i pid \<and>
         (\<forall>j<i. \<forall>p. \<not> formAt uriLiteral url j p))) \<and>
   (\<not> webLinkForm url \<and> \<not> uriForm url \<longrightarrow>
      extractPlaylistIdFromUrl url = Inl InvalidUrlError) \<and>
   extractPlaylistIdFromUrl ''https://open.spotify.com/playlist/37i9dQZF1DXcBWIGoYBM5M''
     = Inr ''37i9dQZF1DXcBWIGoYBM5M'' \<and>
   extractPlaylistIdFromUrl ''not-a-url'' = Inl InvalidUrlError"
proof (intro conjI impI)
  assume "webLinkForm url"
  then have "matchCapture httpLiteral url \<noteq> None"
    by (simp add: webLinkForm_def inForm_iff matchCapture_None)
  then obtain pid where m: "matchCapture httpLiteral url = Some pid" by blast
  from matchCapture_Some[OF m] obtain i where
    "formAt httpLiteral url i pid" "\<forall>j<i. \<forall>p. \<not> formAt httpLiteral url j p" by blast
  moreover from m have "extractPlaylistIdFromUrl url = Inr pid"
    by (simp add: extractPlaylistIdFromUrl_def)
  ultimately show "\<exists>i pid. extractPlaylistIdFromUrl url = Inr pid \<and>
      formAt httpLiteral url i pid \<and> (\<forall>j<i. \<forall>p. \<not> formAt httpLiteral url j p)"
    by blast
next
  assume a: "\<not> webLinkForm url \<and> uriForm url"
  then have h: "matchCapture httpLiteral url = None"
    by (simp add: webLinkForm_def inForm_iff matchCapture_None)
  from a have "matchCapture uriLiteral url \<noteq> None"
    by (simp add: uriForm_def inForm_iff matchCapture_None)
  then obtain pid where m: "matchCapture uriLiteral url = Some pid" by blast
  from matchCapture_Some[OF m] obtain i where
    "formAt uriLiteral url i pid" "\<forall>j<i. \<forall>p. \<not> formAt uriLiteral url j p" by blast
  moreover from h m have "extractPlaylistIdFromUrl url = Inr pid"
    by (simp add: extractPlaylistIdFromUrl_def)
  ultimately show "\<exists>i pid. extractPlaylistIdFromUrl url = Inr pid \<and>
      formAt uriLiteral url i pid \<and> (\<forall>j<i. \<forall>p. \<not> formAt uriLiteral url j p)"
    by blast
next
  assume a: "\<not> webLinkForm url \<and> \<not> uriForm url"
  then have "matchCapture httpLiteral url = None" "matchCapture uriLiteral url = None"
    by (simp_all add: webLinkForm_def uriForm_def inForm_iff matchCapture_None)
  then show "extractPlaylistIdFromUrl url = Inl InvalidUrlError"
    by (simp add: extractPlaylistIdFromUrl_def)
next
  show "extractPlaylistIdFromUrl ''https://open.spotify.com/playlist/37i9dQZF1DXcBWIGoYBM5M''
     = Inr ''37i9dQZF1DXcBWIGoYBM5M''"
    by code_simp
next
  show "extractPlaylistIdFromUrl ''not-a-url'' = Inl InvalidUrlError"
    by code_simp
qed

theorem extractPlaylistIdFromUrl_forms_witness:
  "webLinkForm ''https://open.spotify.com/playlist/37i9dQZF1DXcBWIGoYBM5M'' \<and>
   extractPlaylistIdFromUrl ''https://open.spotify.com/playlist/37i9dQZF1DXcBWIGoYBM5M''
     = Inr ''37i9dQZF1DXcBWIGoYBM5M'' \<and>
   \<not> webLinkForm ''spotify:playlist:37i9dQZF1DXcBWIGoYBM5M'' \<and>
   uriForm ''spotify:playlist:37i9dQZF1DXcBWIGoYBM5M'' \<and>
   extractPlaylistIdFromUrl ''spotify:playlist:37i9dQZF1DXcBWIGoYBM5M''
     = Inr ''37i9dQZF1DXcBWIGoYBM5M'' \<and>
   \<not> webLinkForm ''not-a-url'' \<and> \<not> uriForm ''not-a-url'' \<and>
   extractPlaylistIdFromUrl ''not-a-url'' = Inl InvalidUrlError"
proof -
  have w1: "webLinkForm ''https://open.spotify.com/playlist/37i9dQZF1DXcBWIGoYBM5M''"
    by code_simp
  have w2: "\<not> webLinkForm ''spotify:playlist:37i9dQZF1DXcBWIGoYBM5M''"
    by code_simp
  have w3: "uriForm ''spotify:playlist:37i9dQZF1DXcBWIGoYBM5M''"
    by code_simp
  have w4: "\<not> webLinkForm ''not-a-url''" "\<not> uriForm ''not-a-url''"
    by code_simp+
  have e2: "extractPlaylistIdFromUrl ''spotify:playlist:37i9dQZF1DXcBWIGoYBM5M''
     = Inr ''37i9dQZF1DXcBWIGoYBM5M''"
    by code_simp
  from extractPlaylistIdFromUrl_forms[of "''not-a-url''"] w1 w2 w3 w4 e2
  show ?thesis by simp
qed

section \<open>Properties of the example comparison\<close>

lemma codeUnitCompare_flip: "codeUnitCompare a b < 0 \<longleftrightarrow> 0 < codeUnitCompare b a"
  by (induction a b rule: codeUnitCompare.induct) auto

lemma codeUnitCompare_trans:
  "codeUnitCompare a b \<le> 0 \<Longrightarrow> codeUnitCompare b c \<le> 0 \<Longrightarrow> codeUnitCompare a c \<le> 0"
proof (induction a arbitrary: b c)
  case Nil
  then show ?case by (cases c) simp_all
next
  case (Cons x xs)
  then obtain y ys where b: "b = y # ys" by (cases b) auto
  with Cons.prems obtain z zs where c: "c = z # zs" by (cases c) auto
  from Cons.prems b c have xy: "(of_char x :: nat) \<le> of_char y" and yz: "(of_char y :: nat) \<le> of_char z"
    by (auto split: if_splits)
  show ?case
  proof (cases "(of_char x :: nat) < of_char z")
    case True
    with c show ?thesis by simp
  next
    case False
    with xy yz have "(of_char x :: nat) = of_char y \<and> (of_char y :: nat) = of_char z" by arith
    then have e: "x = y" "y = z" by simp_all
    with Cons.prems b c have "codeUnitCompare xs ys \<le> 0" "codeUnitCompare ys zs \<le> 0"
      by (auto split: if_splits)
    then have "codeUnitCompare xs zs \<le> 0" by (rule Cons.IH)
    with e c show ?thesis by simp
  qed
qed

lemma exampleEnv_consistent: "consistentComparator (localeCompare exampleEnv)"
  unfolding consistentComparator_def exampleEnv_def
  using codeUnitCompare_flip codeUnitCompare_trans by (simp, blast)

section \<open>Properties of the album sort\<close>

lemma arraySort_Cons: "arraySort cmp (x # xs) = sortInsert cmp x (arraySort cmp xs)"
  by (simp add: arraySort_def)

lemma arraySort_Nil: "arraySort cmp [] = []"
  by (simp add: arraySort_def)

lemma mset_sortInsert: "mset (sortInsert cmp x ys) = add_mset x (mset ys)"
  by (induction ys) auto

lemma mset_arraySort: "mset (arraySort cmp xs) = mset xs"
  by (induction xs) (simp_all add: arraySort_Nil arraySort_Cons mset_sortInsert)

lemma set_arraySort: "set (arraySort cmp xs) = set xs"
  by (metis mset_arraySort set_mset_mset)

lemma consistent_flip:
  assumes "consistentComparator cmp" "\<not> cmp x y \<le> 0"
  shows "cmp y x \<le> 0"
proof -
  from assms(1) have "cmp y x < 0 \<longleftrightarrow> 0 < cmp x y"
    unfolding consistentComparator_def by blast
  with assms(2) show ?thesis by arith
qed

lemma consistent_sym0:
  assumes "consistentComparator cmp" "cmp x y = 0"
  shows "cmp y x = 0"
proof -
  from assms(1) have "cmp y x < 0 \<longleftrightarrow> 0 < cmp x y" "cmp x y < 0 \<longleftrightarrow> 0 < cmp y x"
    unfolding consistentComparator_def by blast+
  with assms(2) show ?thesis by arith
qed

lemma consistent_trans:
  assumes "consistentComparator cmp" "cmp a b \<le> 0" "cmp b c \<le> 0"
  shows "cmp a c \<le> 0"
  using assms unfolding consistentComparator_def by blast

lemma sorted_sortInsert:
  assumes c: "consistentComparator cmp"
  shows "sorted_wrt (\<lambda>a b. cmp a b \<le> 0) ys \<Longrightarrow> sorted_wrt (\<lambda>a b. cmp a b \<le> 0) (sortInsert cmp x ys)"
proof (induction ys)
  case Nil
  show ?case by simp
next
  case (Cons y ys)
  show ?case
  proof (cases "cmp x y \<le> 0")
    case True
    have "\<forall>z\<in>set ys. cmp x z \<le> 0"
    proof
      fix z assume "z \<in> set ys"
      with Cons.prems have "cmp y z \<le> 0" by simp
      with True show "cmp x z \<le> 0" by (rule consistent_trans[OF c])
    qed
    with True Cons.prems show ?thesis by simp
  next
    case False
    then have yx: "cmp y x \<le> 0" by (rule consistent_flip[OF c])
    from Cons.prems have "sorted_wrt (\<lambda>a b. cmp a b \<le> 0) ys" by simp
    then have s: "sorted_wrt (\<lambda>a b. cmp a b \<le> 0) (sortInsert cmp x ys)" by (rule Cons.IH)
    have "set (sortInsert cmp x ys) = insert x (set ys)"
      by (metis mset_sortInsert set_mset_mset set_mset_add_mset_insert)
    with yx Cons.prems have "\<forall>z\<in>set (sortInsert cmp x ys). cmp y z \<le> 0" by simp
    with False s show ?thesis by simp
  qed
qed

lemma sorted_arraySort:
  assumes "consistentComparator cmp"
  shows "sorted_wrt (\<lambda>a b. cmp a b \<le> 0) (arraySort cmp xs)"
  by (induction xs) (simp_all add: arraySort_Nil arraySort_Cons sorted_sortInsert[OF assms])

lemma filter_sortInsert:
  assumes "\<And>y. y \<in> set ys \<Longrightarrow> P x \<Longrightarrow> P y \<Longrightarrow> cmp x y \<le> 0"
  shows "filter P (sortInsert cmp x ys) = filter P (x # ys)"
  using assms
proof (induction ys)
  case Nil
  show ?case by simp
next
  case (Cons y ys)
  show ?case
  proof (cases "cmp x y \<le> 0")
    case True
    then show ?thesis by simp
  next
    case False
    with Cons.prems[of y] have n: "\<not> (P x \<and> P y)" by auto
    have "filter P (sortInsert cmp x ys) = filter P (x # ys)"
      by (rule Cons.IH) (simp add: Cons.prems)
    with False n show ?thesis by auto
  qed
qed

lemma filter_arraySort:
  assumes "\<And>x y. P x \<Longrightarrow> P y \<Longrightarrow> cmp x y \<le> 0"
  shows "filter P (arraySort cmp xs) = filter P xs"
proof (induction xs)
  case Nil
  show ?case by (simp add: arraySort_Nil)
next
  case (Cons x xs)
  have "filter P (sortInsert cmp x (arraySort cmp xs)) = filter P (x # arraySort cmp xs)"
    by (rule filter_sortInsert) (rule assms)
  with Cons show ?case by (simp add: arraySort_Cons)
qed

lemma compareAlbums_le: "compareAlbums env a b \<le> 0 \<longleftrightarrow> inOrder env a b"
  by (auto simp: compareAlbums_def inOrder_def)

lemma consistent_compareAlbums:
  assumes "consistentComparator (localeCompare env)"
  shows "consistentComparator (compareAlbums env)"
  unfolding consistentComparator_def
proof (intro conjI allI impI)
  fix a b :: album_info
  from assms have l: "localeCompare env (ai_albumName a) (ai_albumName b) < 0
      \<longleftrightarrow> 0 < localeCompare env (ai_albumName b) (ai_albumName a)"
    unfolding consistentComparator_def by blast
  show "compareAlbums env a b < 0 \<longleftrightarrow> 0 < compareAlbums env b a"
  proof (cases "ai_releaseYear a = ai_releaseYear b")
    case True
    with l show ?thesis by (simp add: compareAlbums_def)
  next
    case False
    then show ?thesis by (auto simp: compareAlbums_def)
  qed
next
  fix a b c
  assume h: "compareAlbums env a b \<le> 0 \<and> compareAlbums env b c \<le> 0"
  then have ab: "inOrder env a b" and bc: "inOrder env b c"
    by (simp_all add: compareAlbums_le)
  have "inOrder env a c"
  proof (cases "ai_releaseYear a = ai_releaseYear b \<and> ai_releaseYear b = ai_releaseYear c")
    case True
    with ab bc have "localeCompare env (ai_albumName a) (ai_albumName b) \<le> 0"
      "localeCompare env (ai_albumName b) (ai_albumName c) \<le> 0"
      by (simp_all add: inOrder_def)
    then have "localeCompare env (ai_albumName a) (ai_albumName c) \<le> 0"
      by (rule consistent_trans[OF assms])
    with True show ?thesis by (simp add: inOrder_def)
  next
    case False
    with ab bc show ?thesis by (auto simp: inOrder_def)
  qed
  then show "compareAlbums env a c \<le> 0" by (simp add: compareAlbums_le)
qed

text \<open>
  Claim C4. With a consistent locale comparison, the sorted list is a permutation of the
  input, any two positions \<open>i < j\<close> of it are in order (earlier release year, or the same
  year and an album name that compares less than or equal), and albums with the same year
  and equal-comparing names keep their input order.
\<close>

theorem sortAlbumsByReleaseYear_sorted_stable:
  assumes "consistentComparator (localeCompare env)"
  shows "mset (sortAlbumsByReleaseYear env albumInfo) = mset albumInfo \<and>
         (\<forall>i j. i < j \<and> j < length albumInfo \<longrightarrow>
            inOrder env (sortAlbumsByReleaseYear env albumInfo ! i)
                        (sortAlbumsByReleaseYear env albumInfo ! j)) \<and>
         (\<forall>a. filter (sameKey env a) (sortAlbumsByReleaseYear env albumInfo)
              = filter (sameKey env a) albumInfo)"
proof (intro conjI allI impI)
  show "mset (sortAlbumsByReleaseYear env albumInfo) = mset albumInfo"
    by (simp add: sortAlbumsByReleaseYear_def mset_arraySort)
next
  fix i j
  assume ij: "i < j \<and> j < length albumInfo"
  have c: "consistentComparator (compareAlbums env)"
    by (rule consistent_compareAlbums[OF assms])
  have len: "length (arraySort (compareAlbums env) albumInfo) = length albumInfo"
    by (metis mset_arraySort size_mset)
  from sorted_arraySort[OF c, of albumInfo] ij len
  have "compareAlbums env (arraySort (compareAlbums env) albumInfo ! i)
          (arraySort (compareAlbums env) albumInfo ! j) \<le> 0"
    by (simp add: sorted_wrt_iff_nth_less)
  then show "inOrder env (sortAlbumsByReleaseYear env albumInfo ! i)
                        (sortAlbumsByReleaseYear env albumInfo ! j)"
    by (simp add: sortAlbumsByReleaseYear_def compareAlbums_le)
next
  fix a
  have "\<And>x y. sameKey env a x \<Longrightarrow> sameKey env a y \<Longrightarrow> compareAlbums env x y \<le> 0"
  proof -
    fix x y
    assume x: "sameKey env a x" and y: "sameKey env a y"
    from x have "localeCompare env (ai_albumName x) (ai_albumName a) = 0"
      by (simp add: sameKey_def consistent_sym0[OF assms])
    moreover from y have "localeCompare env (ai_albumName a) (ai_albumName y) = 0"
      by (simp add: sameKey_def)
    ultimately have "localeCompare env (ai_albumName x) (ai_albumName y) \<le> 0"
      using consistent_trans[OF assms, of "ai_albumName x" "ai_albumName a" "ai_albumName y"]
      by simp
    with x y show "compareAlbums env x y \<le> 0"
      by (simp add: compareAlbums_def sameKey_def)
  qed
  then show "filter (sameKey env a) (sortAlbumsByReleaseYear env albumInfo)
              = filter (sameKey env a) albumInfo"
    unfolding sortAlbumsByReleaseYear_def by (rule filter_arraySort)
qed

theorem sortAlbumsByReleaseYear_sorted_stable_witness:
  "consistentComparator (localeCompare exampleEnv) \<and>
   mset (sortAlbumsByReleaseYear exampleEnv exampleAlbums) = mset exampleAlbums \<and>
   inOrder exampleEnv (sortAlbumsByReleaseYear exampleEnv exampleAlbums ! 1)
                      (sortAlbumsByReleaseYear exampleEnv exampleAlbums ! 2) \<and>
   filter (sameKey exampleEnv (exampleAlbums ! 1)) (sortAlbumsByReleaseYear exampleEnv exampleAlbums)
     = filter (sameKey exampleEnv (exampleAlbums ! 1)) exampleAlbums \<and>
   sortAlbumsByReleaseYear exampleEnv exampleAlbums
     = [exampleAlbums ! 3, exampleAlbums ! 1, exampleAlbums ! 2, exampleAlbums ! 0]"
proof -
  have len: "length exampleAlbums = 4" by (simp add: exampleAlbums_def)
  note t = sortAlbumsByReleaseYear_sorted_stable[OF exampleEnv_consistent, of exampleAlbums]
  from t have 1: "mset (sortAlbumsByReleaseYear exampleEnv exampleAlbums) = mset exampleAlbums"
    by blast
  from t len have 2: "inOrder exampleEnv (sortAlbumsByReleaseYear exampleEnv exampleAlbums ! 1)
                      (sortAlbumsByReleaseYear exampleEnv exampleAlbums ! 2)"
    by simp
  from t have 3: "filter (sameKey exampleEnv (exampleAlbums ! 1)) (sortAlbumsByReleaseYear exampleEnv exampleAlbums)
     = filter (sameKey exampleEnv (exampleAlbums ! 1)) exampleAlbums"
    by blast
  have 4: "sortAlbumsByReleaseYear exampleEnv exampleAlbums
     = [exampleAlbums ! 3, exampleAlbums ! 1, exampleAlbums ! 2, exampleAlbums ! 0]"
    by code_simp
  from exampleEnv_consistent 1 2 3 4 show ?thesis by blast
qed

section \<open>Properties of the earliest-album search\<close>

lemma getTrackAlbumInformation_Inr:
  assumes "getTrackAlbumInformation apiClient env trackName artistName albumTypeFilter beforeYear log
             = (Inr result, log')"
  shows "\<exists>tracks. fst (searchTracksByNameAndArtist apiClient trackName artistName log) = Inr tracks \<and>
           result = sortAlbumsByReleaseYear env
             (filter (\<lambda>info. beforeYear \<noteq> None \<and> beforeYear \<noteq> Some 0 \<longrightarrow>
                        0 < ai_releaseYear info \<and> ai_releaseYear info < the beforeYear)
               (filter (\<lambda>info. truthy albumTypeFilter \<longrightarrow>
                          toLowerCase (ai_albumType info) = toLowerCase (the albumTypeFilter))
                 (formatAlbumInformation env tracks)))"
  using assms
  by (auto simp: getTrackAlbumInformation_def Let_def split: prod.splits sum.splits if_splits)

lemma findEarliest_nonzero_year:
  assumes r: "findEarliestAlbumBeforeYear apiClient env trackName artistName givenYear log
             = (Inr (Some info), log')"
    and nz: "givenYear \<noteq> 0"
  shows "0 < ai_releaseYear info \<and> ai_releaseYear info < givenYear \<and>
         toLowerCase (ai_albumType info) = ''album''"
proof -
  from r obtain albumInfo where
    g: "getTrackAlbumInformation apiClient env trackName artistName (Some ''album'')
          (Some givenYear) log = (Inr albumInfo, log')"
    and h: "albumInfo \<noteq> []" "info = hd albumInfo"
    by (auto simp: findEarliestAlbumBeforeYear_def split: prod.splits sum.splits list.splits)
  from getTrackAlbumInformation_Inr[OF g] obtain tracks where
    res: "albumInfo = sortAlbumsByReleaseYear env
             (filter (\<lambda>info. Some givenYear \<noteq> None \<and> Some givenYear \<noteq> Some 0 \<longrightarrow>
                        0 < ai_releaseYear info \<and> ai_releaseYear info < the (Some givenYear))
               (filter (\<lambda>info. truthy (Some ''album'') \<longrightarrow>
                          toLowerCase (ai_albumType info) = toLowerCase (the (Some ''album'')))
                 (formatAlbumInformation env tracks)))"
    by blast
  from h have "info \<in> set albumInfo" by simp
  with res nz have "0 < ai_releaseYear info \<and> ai_releaseYear info < givenYear \<and>
      toLowerCase (ai_albumType info) = toLowerCase ''album''"
    by (auto simp: sortAlbumsByReleaseYear_def set_arraySort truthy_def)
  moreover have "toLowerCase ''album'' = ''album''" by code_simp
  ultimately show ?thesis by simp
qed


text \<open>
  Claim C3. The claim asks that no returned candidate has a release year of 0 or one that
  is not below the given year. Evaluating the search at the given year 0: the year filter
  is skipped, so a 1965 album is returned, and an album with an unparsable date (release
  year 0) is returned; at the neighbouring years 1 and -1 nothing is returned.
\<close>

theorem findEarliestAlbumBeforeYear_year_zero:
  "fst (findEarliestAlbumBeforeYear exampleClient exampleEnv ''Yesterday'' ''The Beatles'' 0 [])
     = Inr (Some (formatAlbumEntry exampleEnv yesterdayOnHelp)) \<and>
   ai_releaseYear (formatAlbumEntry exampleEnv yesterdayOnHelp) = 1965 \<and>
   fst (findEarliestAlbumBeforeYear undatedClient exampleEnv ''Yesterday'' ''The Beatles'' 0 [])
     = Inr (Some (formatAlbumEntry exampleEnv yesterdayUndated)) \<and>
   ai_releaseYear (formatAlbumEntry exampleEnv yesterdayUndated) = 0 \<and>
   fst (findEarliestAlbumBeforeYear exampleClient exampleEnv ''Yesterday'' ''The Beatles'' 1 [])
     = Inr None \<and>
   fst (findEarliestAlbumBeforeYear exampleClient exampleEnv ''Yesterday'' ''The Beatles'' (- 1) [])
     = Inr None"
  by code_simp

text \<open>
  The same through the batch path: a row whose release year is the text \<open>0\<close> passes the
  validation and is enriched with the 1965 album.
\<close>

lemma processTrackRecord_year_zero_row:
  "parseInt (rowYearZero ''Release Year'') = Some 0 \<and>
   fst (processTrackRecord exampleClient exampleEnv rowYearZero 0 1 []) ''New Album Release Year''
     = Some ''1965''"
  by code_simp

section \<open>Properties of batch enrichment\<close>

lemma createEnhancedRecord_original:
  "k \<in> {''Track Name'', ''Artist Name'', ''Release Year'', ''Spotify Track ID''} \<Longrightarrow>
   createEnhancedRecord inputRecord albumInfo k = inputRecord k"
  by (auto simp: createEnhancedRecord_def Let_def split: option.splits)

lemma createEnhancedRecord_empty:
  "k \<in> {''New Track Name'', ''New Album Name'', ''New Album Release Year'', ''New Track Spotify ID''} \<Longrightarrow>
   createEnhancedRecord inputRecord None k = Some []"
  by (auto simp: createEnhancedRecord_def Let_def)

lemma processTrackRecord_shape:
  "\<exists>albumInfo. fst (processTrackRecord apiClient env record index total' log)
      = createEnhancedRecord record albumInfo"
  by (auto simp: processTrackRecord_def processTrackRecordTry_def Let_def
           split: prod.splits sum.splits)

lemma findEarliest_log:
  "snd (findEarliestAlbumBeforeYear apiClient env trackName artistName y log)
     = log @ [GetSearch (trackSearchQuery trackName artistName) ''track'' 50]"
  by (auto simp: findEarliestAlbumBeforeYear_def getTrackAlbumInformation_def
        searchTracksByNameAndArtist_def Let_def split: prod.splits sum.splits option.splits)

lemma findEarliest_failure:
  "searchTracksResponse apiClient log (trackSearchQuery trackName artistName) = Inl failure \<Longrightarrow>
   fst (findEarliestAlbumBeforeYear apiClient env trackName artistName y log)
     = Inl (wrapFailure ''Track search'' failure)"
  by (auto simp: findEarliestAlbumBeforeYear_def getTrackAlbumInformation_def
        searchTracksByNameAndArtist_def Let_def split: prod.splits sum.splits option.splits)

text \<open>
  Claim C5. \<open>processTrackRecord\<close> always returns one enriched record built from the row.
  A row without track name, artist name or parsable year is emitted with the four new
  fields empty and the call log untouched (the remote is not asked). Any other row costs
  exactly one search call, and when that call throws, the row is emitted with the same
  empty enrichment instead of the error.
\<close>

theorem processTrackRecord_outcomes:
  "(\<exists>albumInfo. fst (processTrackRecord apiClient env record index total' log)
        = createEnhancedRecord record albumInfo) \<and>
   (invalidRow record \<longrightarrow>
      processTrackRecord apiClient env record index total' log
        = (createEnhancedRecord record None, log)) \<and>
   (\<not> invalidRow record \<longrightarrow>
      snd (processTrackRecord apiClient env record index total' log)
        = log @ [GetSearch (trackSearchQuery (the (record ''Track Name''))
                              (the (record ''Artist Name''))) ''track'' 50]) \<and>
   (\<not> invalidRow record \<and>
    searchTracksResponse apiClient log
      (trackSearchQuery (the (record ''Track Name'')) (the (record ''Artist Name''))) = Inl failure \<longrightarrow>
      fst (processTrackRecord apiClient env record index total' log)
        = createEnhancedRecord record None) \<and>
   createEnhancedRecord record None ''New Track Name'' = Some [] \<and>
   createEnhancedRecord record None ''New Album Name'' = Some [] \<and>
   createEnhancedRecord record None ''New Album Release Year'' = Some [] \<and>
   createEnhancedRecord record None ''New Track Spotify ID'' = Some []"
proof (intro conjI impI)
  show "\<exists>albumInfo. fst (processTrackRecord apiClient env record index total' log)
        = createEnhancedRecord record albumInfo"
    by (rule processTrackRecord_shape)
next
  assume "invalidRow record"
  then show "processTrackRecord apiClient env record index total' log
        = (createEnhancedRecord record None, log)"
    by (auto simp: processTrackRecord_def processTrackRecordTry_def invalidRow_def Let_def)
next
  assume v: "\<not> invalidRow record"
  let ?f = "findEarliestAlbumBeforeYear apiClient env (the (record ''Track Name''))
              (the (record ''Artist Name'')) (the (parseInt (record ''Release Year''))) log"
  from v have "snd (processTrackRecord apiClient env record index total' log) = snd ?f"
    by (auto simp: processTrackRecord_def processTrackRecordTry_def invalidRow_def Let_def
             split: prod.splits sum.splits)
  then show "snd (processTrackRecord apiClient env record index total' log)
        = log @ [GetSearch (trackSearchQuery (the (record ''Track Name''))
                              (the (record ''Artist Name''))) ''track'' 50]"
    by (simp add: findEarliest_log)
next
  assume a: "\<not> invalidRow record \<and>
    searchTracksResponse apiClient log
      (trackSearchQuery (the (record ''Track Name'')) (the (record ''Artist Name''))) = Inl failure"
  let ?f = "findEarliestAlbumBeforeYear apiClient env (the (record ''Track Name''))
              (the (record ''Artist Name'')) (the (parseInt (record ''Release Year''))) log"
  from a have "fst ?f = Inl (wrapFailure ''Track search'' failure)"
    by (simp add: findEarliest_failure)
  with a show "fst (processTrackRecord apiClient env record index total' log)
        = createEnhancedRecord record None"
    by (auto simp: processTrackRecord_def processTrackRecordTry_def invalidRow_def Let_def
             split: prod.splits sum.splits)
qed (simp_all add: createEnhancedRecord_empty)

theorem processTrackRecord_outcomes_witness:
  "invalidRow rowUnparsable \<and>
   processTrackRecord exampleClient exampleEnv rowUnparsable 1 3 []
     = (createEnhancedRecord rowUnparsable None, []) \<and>
   \<not> invalidRow rowYesterday \<and>
   searchTracksResponse flakyClient [GetSearch ''earlier'' ''track'' 50]
     (trackSearchQuery ''Yesterday'' ''The Beatles'') = Inl (NoResponse ''socket hang up'') \<and>
   fst (processTrackRecord flakyClient exampleEnv rowYesterday 2 3 [GetSearch ''earlier'' ''track'' 50])
     = createEnhancedRecord rowYesterday None"
proof -
  have i1: "invalidRow rowUnparsable" by code_simp
  have i2: "\<not> invalidRow rowYesterday" by code_simp
  have n: "the (rowYesterday ''Track Name'') = ''Yesterday''"
    "the (rowYesterday ''Artist Name'') = ''The Beatles''"
    by (simp_all add: rowYesterday_def)
  have f: "searchTracksResponse flakyClient [GetSearch ''earlier'' ''track'' 50]
     (trackSearchQuery ''Yesterday'' ''The Beatles'') = Inl (NoResponse ''socket hang up'')"
    by (simp add: flakyClient_def)
  from processTrackRecord_outcomes[of exampleClient exampleEnv rowUnparsable 1 3 "[]"] i1
  have a: "processTrackRecord exampleClient exampleEnv rowUnparsable 1 3 []
     = (createEnhancedRecord rowUnparsable None, [])" by blast
  from processTrackRecord_outcomes[of flakyClient exampleEnv rowYesterday 2 3
         "[GetSearch ''earlier'' ''track'' 50]" "NoResponse ''socket hang up''"] i2 f n
  have b: "fst (processTrackRecord flakyClient exampleEnv rowYesterday 2 3 [GetSearch ''earlier'' ''track'' 50])
     = createEnhancedRecord rowYesterday None" by simp
  from i1 i2 f a b show ?thesis by blast
qed

lemma processTrackRecord_original:
  assumes "k \<in> {''Track Name'', ''Artist Name'', ''Release Year'', ''Spotify Track ID''}"
  shows "fst (processTrackRecord apiClient env record index total' log) k = record k"
proof -
  obtain albumInfo where
    "fst (processTrackRecord apiClient env record index total' log)
       = createEnhancedRecord record albumInfo"
    using processTrackRecord_shape by blast
  then show ?thesis by (simp only: createEnhancedRecord_original[OF assms])
qed

lemma processAllRecordsLoop_length:
  "length (fst (processAllRecordsLoop apiClient env records i acc log))
     = length acc + (length records - i)"
proof (induction apiClient env records i acc log rule: processAllRecordsLoop.induct)
  case (1 apiClient env records i enhancedRecords log)
  show ?case
  proof (cases "i < length records")
    case True
    with 1 show ?thesis
      by (subst processAllRecordsLoop.simps) (simp add: Let_def)
  next
    case False
    then show ?thesis by (subst processAllRecordsLoop.simps) simp
  qed
qed

lemma processAllRecordsLoop_nth:
  assumes "length acc = i" "j < length records"
    "k \<in> {''Track Name'', ''Artist Name'', ''Release Year'', ''Spotify Track ID''}"
    "\<forall>m<i. (acc ! m) k = (records ! m) k"
  shows "(fst (processAllRecordsLoop apiClient env records i acc log) ! j) k = (records ! j) k"
  using assms
proof (induction apiClient env records i acc log rule: processAllRecordsLoop.induct)
  case (1 apiClient env records i enhancedRecords log)
  show ?case
  proof (cases "i < length records")
    case True
    let ?r = "processTrackRecord apiClient env (records ! i) i (length records) log"
    have new: "\<forall>m<i + 1. ((enhancedRecords @ [fst ?r]) ! m) k = (records ! m) k"
    proof (intro allI impI)
      fix m assume "m < i + 1"
      show "((enhancedRecords @ [fst ?r]) ! m) k = (records ! m) k"
      proof (cases "m < i")
        case True
        with "1.prems" show ?thesis by (simp add: nth_append)
      next
        case False
        with \<open>m < i + 1\<close> have "m = i" by simp
        with "1.prems" show ?thesis
          by (simp add: nth_append processTrackRecord_original del: insert_iff)
      qed
    qed
    have "(fst (processAllRecordsLoop apiClient env records (i + 1)
              (enhancedRecords @ [fst ?r]) (snd ?r)) ! j) k = (records ! j) k"
      using True "1.prems" new by (intro "1.IH"[OF True refl]) simp_all
    with True show ?thesis
      by (subst processAllRecordsLoop.simps) (simp add: Let_def)
  next
    case False
    with "1.prems" show ?thesis
      by (subst processAllRecordsLoop.simps) simp
  qed
qed

text \<open>
  Claim C1. For every list of input records, whatever the remote answers or throws, batch
  enrichment returns a list of the same length, and the record at each index carries the
  input record's \<open>Track Name\<close>, \<open>Artist Name\<close>, \<open>Release Year\<close> and \<open>Spotify Track ID\<close>
  unchanged: no row is dropped, reordered or altered in its original columns.
\<close>

theorem processAllRecords_preserves_rows:
  "length (fst (processAllRecords apiClient env records log)) = length records \<and>
   (\<forall>i<length records.
      \<forall>k\<in>{''Track Name'', ''Artist Name'', ''Release Year'', ''Spotify Track ID''}.
        (fst (processAllRecords apiClient env records log) ! i) k = (records ! i) k)"
proof (intro conjI allI impI ballI)
  show "length (fst (processAllRecords apiClient env records log)) = length records"
    by (simp add: processAllRecords_def processAllRecordsLoop_length)
next
  fix i k
  assume "i < length records"
    and "k \<in> {''Track Name'', ''Artist Name'', ''Release Year'', ''Spotify Track ID''}"
  then show "(fst (processAllRecords apiClient env records log) ! i) k = (records ! i) k"
    unfolding processAllRecords_def
    by (intro processAllRecordsLoop_nth) simp_all
qed


theorem processAllRecords_preserves_rows_witness:
  "length (fst (processAllRecords flakyClient exampleEnv exampleRows [])) = 3 \<and>
   (fst (processAllRecords flakyClient exampleEnv exampleRows []) ! 1) ''Release Year'' = Some ''n/a'' \<and>
   (fst (processAllRecords flakyClient exampleEnv exampleRows []) ! 2) ''Track Name'' = Some ''Yesterday''"
proof -
  have len: "length exampleRows = 3" by (simp add: exampleRows_def)
  note t = processAllRecords_preserves_rows[of flakyClient exampleEnv exampleRows "[]"]
  from t have "length (fst (processAllRecords flakyClient exampleEnv exampleRows [])) = 3"
    by (simp add: len)
  moreover from t len
  have "(fst (processAllRecords flakyClient exampleEnv exampleRows []) ! 1) ''Release Year''
          = (exampleRows ! 1) ''Release Year''"
    by simp
  moreover from t len
  have "(fst (processAllRecords flakyClient exampleEnv exampleRows []) ! 2) ''Track Name''
          = (exampleRows ! 2) ''Track Name''"
    by simp
  ultimately show ?thesis
    by (simp add: exampleRows_def rowUnparsable_def rowYesterday_def)
qed

text \<open>The scenario of the specification: the 1968 compilation is excluded and the 1965 album is found for the row of 1970.\<close>

lemma enrich_scenario:
  "(fst (processAllRecords flakyClient exampleEnv exampleRows []) ! 0) ''New Album Release Year'' = Some ''1965''"
  by code_simp


section \<open>Properties of the playlist name search\<close>

lemma set_dropNulls: "set (dropNulls xs) = {x. Some x \<in> set xs}"
  by (induction xs rule: dropNulls.induct) auto

text \<open>
  Claim C6. Every playlist returned by the name search has a name whose lower-casing
  equals the lower-cased query, so a name that merely contains the query is never
  returned; and when an owner is supplied (a non-empty text), every returned playlist has
  an owner identifier whose lower-casing equals the lower-cased owner.
\<close>

theorem searchPlaylistsByName_exact:
  assumes "searchPlaylistsByName apiClient playlistName owner log = (Inr result, log')"
  shows "\<forall>p\<in>set result.
           (\<exists>n. playlist_name p = Some n \<and> toLowerCase n = toLowerCase playlistName) \<and>
           (\<forall>ownerName. owner = Some ownerName \<and> ownerName \<noteq> [] \<longrightarrow>
              (\<exists>ow oid. playlist_owner p = Some ow \<and> owner_id ow = Some oid \<and>
                 toLowerCase oid = toLowerCase ownerName))"
proof
  fix p assume p: "p \<in> set result"
  from assms obtain playlists where
    r: "result = dropNulls
          (if truthy owner
           then filter (ownerMatch (the owner)) (filter (exactNameMatch playlistName) playlists)
           else filter (exactNameMatch playlistName) playlists)"
    by (auto simp: searchPlaylistsByName_def Let_def split: sum.splits)
  from p r have n: "exactNameMatch playlistName (Some p)"
    by (auto simp: set_dropNulls split: if_splits)
  then have 1: "\<exists>n. playlist_name p = Some n \<and> toLowerCase n = toLowerCase playlistName"
    by (auto simp: exactNameMatch_def split: option.splits)
  have 2: "\<forall>ownerName. owner = Some ownerName \<and> ownerName \<noteq> [] \<longrightarrow>
              (\<exists>ow oid. playlist_owner p = Some ow \<and> owner_id ow = Some oid \<and>
                 toLowerCase oid = toLowerCase ownerName)"
  proof (intro allI impI)
    fix ownerName assume o: "owner = Some ownerName \<and> ownerName \<noteq> []"
    then have "truthy owner" by (simp add: truthy_def)
    with p r o have "ownerMatch ownerName (Some p)"
      by (auto simp: set_dropNulls)
    then show "\<exists>ow oid. playlist_owner p = Some ow \<and> owner_id ow = Some oid \<and>
                 toLowerCase oid = toLowerCase ownerName"
      by (auto simp: ownerMatch_def split: option.splits)
  qed
  from 1 2 show "(\<exists>n. playlist_name p = Some n \<and> toLowerCase n = toLowerCase playlistName) \<and>
           (\<forall>ownerName. owner = Some ownerName \<and> ownerName \<noteq> [] \<longrightarrow>
              (\<exists>ow oid. playlist_owner p = Some ow \<and> owner_id ow = Some oid \<and>
                 toLowerCase oid = toLowerCase ownerName))"
    by blast
qed

theorem searchPlaylistsByName_exact_witness:
  "searchPlaylistsByName playlistClient ''My PlayList'' (Some ''ALICE99'') []
     = (Inr [the (examplePlaylists ! 0)], [GetSearch ''My PlayList owner:ALICE99'' ''playlist'' 50]) \<and>
   (\<exists>n. playlist_name (the (examplePlaylists ! 0)) = Some n \<and>
        toLowerCase n = toLowerCase ''My PlayList'') \<and>
   (\<exists>ow oid. playlist_owner (the (examplePlaylists ! 0)) = Some ow \<and> owner_id ow = Some oid \<and>
        toLowerCase oid = toLowerCase ''ALICE99'')"
proof -
  have e: "searchPlaylistsByName playlistClient ''My PlayList'' (Some ''ALICE99'') []
     = (Inr [the (examplePlaylists ! 0)], [GetSearch ''My PlayList owner:ALICE99'' ''playlist'' 50])"
    by code_simp
  from searchPlaylistsByName_exact[OF e] e show ?thesis by simp
qed

text \<open>Without an owner the three spellings are returned and the longer name is not.\<close>

lemma searchPlaylistsByName_no_substring:
  "map playlist_id (projr (fst (searchPlaylistsByName playlistClient ''My PlayList'' None [])))
     = [''p1'', ''p2'', ''p5'']"
  by code_simp


section \<open>Properties of the track collector\<close>

lemma getPlaylistTracksLoop_step:
  assumes "playlistTracksResponse apiClient log playlistId offset = Inr (Some page)"
    and "page_items page = Some items"
  shows "getPlaylistTracksLoop apiClient playlistId offset total' allTracks log =
         (if offsetBelow (offset + 50) (if offset = 0 then page_total page else total')
          then getPlaylistTracksLoop apiClient playlistId (offset + 50)
                 (if offset = 0 then page_total page else total')
                 (allTracks @ validTracks items) (log @ [fetch playlistId offset])
          else (Inr (allTracks @ validTracks items), log @ [fetch playlistId offset]))"
  using assms
  by (subst getPlaylistTracksLoop.simps) (simp add: pageLimit_def fetch_def)

lemma getPlaylistTracksLoop_stop:
  assumes "\<not> (\<exists>page items. playlistTracksResponse apiClient log playlistId offset = Inr (Some page)
                \<and> page_items page = Some items)"
  shows "snd (getPlaylistTracksLoop apiClient playlistId offset total' allTracks log)
           = log @ [fetch playlistId offset] \<and>
         (\<exists>e. fst (getPlaylistTracksLoop apiClient playlistId offset total' allTracks log) = Inl e)"
  using assms
  by (subst (1 2) getPlaylistTracksLoop.simps)
     (auto simp: pageLimit_def fetch_def split: sum.splits option.splits)

text \<open>
  Claim C7. When the first page reports a total of 120 and the three page requests are
  answered with item lists, the collector makes exactly the three requests at offsets 0,
  50 and 100 (page size 50, in this order, appended to the call log) and returns the
  valid tracks of the first, second and third page concatenated in that order.
\<close>

theorem getPlaylistTracks_total_120:
  assumes p0: "playlistTracksResponse apiClient log playlistId 0 = Inr (Some page0)"
      "page_total page0 = Some 120" "page_items page0 = Some items0"
    and p1: "playlistTracksResponse apiClient (log @ [fetch playlistId 0]) playlistId 50
               = Inr (Some page1)" "page_items page1 = Some items1"
    and p2: "playlistTracksResponse apiClient (log @ [fetch playlistId 0, fetch playlistId 50])
               playlistId 100 = Inr (Some page2)" "page_items page2 = Some items2"
  shows "getPlaylistTracks apiClient playlistId log =
           (Inr (validTracks items0 @ validTracks items1 @ validTracks items2),
            log @ [fetch playlistId 0, fetch playlistId 50, fetch playlistId 100])"
proof -
  have s0: "getPlaylistTracksLoop apiClient playlistId 0 (Some 0) [] log =
        getPlaylistTracksLoop apiClient playlistId 50 (Some 120) (validTracks items0)
          (log @ [fetch playlistId 0])"
    using getPlaylistTracksLoop_step[OF p0(1) p0(3), of "Some 0" "[]"] p0(2) by (simp add: offsetBelow_def)
  have s1: "getPlaylistTracksLoop apiClient playlistId 50 (Some 120) (validTracks items0)
          (log @ [fetch playlistId 0]) =
        getPlaylistTracksLoop apiClient playlistId 100 (Some 120)
          (validTracks items0 @ validTracks items1)
          (log @ [fetch playlistId 0, fetch playlistId 50])"
    using getPlaylistTracksLoop_step[OF p1(1) p1(2), of "Some 120" "validTracks items0"]
    by (simp add: offsetBelow_def)
  have s2: "getPlaylistTracksLoop apiClient playlistId 100 (Some 120)
          (validTracks items0 @ validTracks items1)
          (log @ [fetch playlistId 0, fetch playlistId 50]) =
        (Inr (validTracks items0 @ validTracks items1 @ validTracks items2),
         log @ [fetch playlistId 0, fetch playlistId 50, fetch playlistId 100])"
    using getPlaylistTracksLoop_step[OF p2(1) p2(2), of "Some 120" "validTracks items0 @ validTracks items1"]
    by (simp add: offsetBelow_def)
  from s0 s1 s2 show ?thesis by (simp add: getPlaylistTracks_def)
qed

theorem getPlaylistTracks_total_120_witness:
  "playlistTracksResponse pagedClient [] ''pl'' 0 = Inr (Some (examplePage 0)) \<and>
   page_total (examplePage 0) = Some 120 \<and>
   getPlaylistTracks pagedClient ''pl'' [] =
     (Inr [yesterdayOnHelp \<lparr> track_id := Some ''0'' \<rparr>,
           yesterdayOnHelp \<lparr> track_id := Some ''50'' \<rparr>,
           yesterdayOnHelp \<lparr> track_id := Some ''100'' \<rparr>],
      [fetch ''pl'' 0, fetch ''pl'' 50, fetch ''pl'' 100])"
proof -
  have r: "\<And>log offset. playlistTracksResponse pagedClient log ''pl'' offset
             = Inr (Some (examplePage offset))"
    by (simp add: pagedClient_def)
  have t: "page_total (examplePage 0) = Some 120"
    by (simp add: examplePage_def)
  have i: "\<And>offset. page_items (examplePage offset) = Some (the (page_items (examplePage offset)))"
    by (simp add: examplePage_def)
  have v0: "validTracks (the (page_items (examplePage 0)))
              = [yesterdayOnHelp \<lparr> track_id := Some ''0'' \<rparr>]"
    by code_simp
  have v1: "validTracks (the (page_items (examplePage 50)))
              = [yesterdayOnHelp \<lparr> track_id := Some ''50'' \<rparr>]"
    by code_simp
  have v2: "validTracks (the (page_items (examplePage 100)))
              = [yesterdayOnHelp \<lparr> track_id := Some ''100'' \<rparr>]"
    by code_simp
  from getPlaylistTracks_total_120[OF r t i r i r i, of "[]"] r t v0 v1 v2
  show ?thesis by simp
qed

text \<open>
  Whatever the later answers are, a first page reporting 120 leads to the requests at
  offsets 0 and 50 and at most one more, at offset 100: a request that throws or returns
  no items is the last one.
\<close>

lemma getPlaylistTracks_at_most_three:
  assumes p0: "playlistTracksResponse apiClient log playlistId 0 = Inr (Some page0)"
      "page_total page0 = Some 120" "page_items page0 = Some items0"
  shows "snd (getPlaylistTracks apiClient playlistId log) \<in>
           {log @ [fetch playlistId 0, fetch playlistId 50],
            log @ [fetch playlistId 0, fetch playlistId 50, fetch playlistId 100]}"
proof -
  have s0: "getPlaylistTracks apiClient playlistId log =
        getPlaylistTracksLoop apiClient playlistId 50 (Some 120) (validTracks items0)
          (log @ [fetch playlistId 0])"
    using getPlaylistTracksLoop_step[OF p0(1) p0(3), of "Some 0" "[]"] p0(2)
    by (simp add: offsetBelow_def getPlaylistTracks_def)
  show ?thesis
  proof (cases "\<exists>page items. playlistTracksResponse apiClient (log @ [fetch playlistId 0]) playlistId 50
                   = Inr (Some page) \<and> page_items page = Some items")
    case False
    from getPlaylistTracksLoop_stop[OF False] s0 show ?thesis by simp
  next
    case True
    then obtain page1 items1 where p1:
      "playlistTracksResponse apiClient (log @ [fetch playlistId 0]) playlistId 50 = Inr (Some page1)"
      "page_items page1 = Some items1" by blast
    have s1: "getPlaylistTracks apiClient playlistId log =
        getPlaylistTracksLoop apiClient playlistId 100 (Some 120)
          (validTracks items0 @ validTracks items1)
          (log @ [fetch playlistId 0, fetch playlistId 50])"
      using getPlaylistTracksLoop_step[OF p1(1) p1(2), of "Some 120" "validTracks items0"] s0
      by (simp add: offsetBelow_def)
    show ?thesis
    proof (cases "\<exists>page items. playlistTracksResponse apiClient
                     (log @ [fetch playlistId 0, fetch playlistId 50]) playlistId 100
                   = Inr (Some page) \<and> page_items page = Some items")
      case False
      from getPlaylistTracksLoop_stop[OF False] s1 show ?thesis by simp
    next
      case True
      then obtain page2 items2 where p2:
        "playlistTracksResponse apiClient (log @ [fetch playlistId 0, fetch playlistId 50])
           playlistId 100 = Inr (Some page2)"
        "page_items page2 = Some items2" by blast
      from getPlaylistTracksLoop_step[OF p2(1) p2(2), of "Some 120"
             "validTracks items0 @ validTracks items1"] s1
      show ?thesis by (simp add: offsetBelow_def)
    qed
  qed
qed


section \<open>Properties of the playlist writer\<close>

lemma addTracksLoop_sum:
  "fst (fst (addTracksLoop apiClient playlistId validTrackIds i successful failed log))
   + snd (fst (addTracksLoop apiClient playlistId validTrackIds i successful failed log))
   = successful + failed + (length validTrackIds - i)"
proof (induction apiClient playlistId validTrackIds i successful failed log
        rule: addTracksLoop.induct)
  case (1 apiClient playlistId validTrackIds i successful failed log)
  let ?batch = "take batchSize (drop i validTrackIds)"
  let ?uris = "map (\<lambda>tid. ''spotify:track:'' @ tid) ?batch"
  let ?log = "log @ [PostPlaylistTracks playlistId ?uris]"
  show ?case
  proof (cases "i < length validTrackIds")
    case False
    have "addTracksLoop apiClient playlistId validTrackIds i successful failed log
            = ((successful, failed), log)"
      by (simp only: addTracksLoop.simps[of _ _ _ i] False if_False)
    with False show ?thesis by simp
  next
    case True
    have len: "length ?batch + (length validTrackIds - (i + batchSize)) = length validTrackIds - i"
      using True by (simp add: min_def)
    show ?thesis
    proof (cases "addTracksResponse apiClient log playlistId ?uris")
      case (Inr posted)
      have step: "addTracksLoop apiClient playlistId validTrackIds i successful failed log
            = addTracksLoop apiClient playlistId validTrackIds (i + batchSize)
                (successful + length ?batch) failed ?log"
        by (simp only: addTracksLoop.simps[of _ _ _ i] True if_True Inr sum.case)
      from "1.IH"(2)[OF True Inr] len show ?thesis
        unfolding step by arith
    next
      case (Inl batchError)
      have step: "addTracksLoop apiClient playlistId validTrackIds i successful failed log
            = addTracksLoop apiClient playlistId validTrackIds (i + batchSize)
                successful (failed + length ?batch) ?log"
        by (simp only: addTracksLoop.simps[of _ _ _ i] True if_True Inl sum.case)
      from "1.IH"(1)[OF True Inl] len show ?thesis
        unfolding step by arith
    qed
  qed
qed

text \<open>
  The counters of the result add up to the number of candidates exactly when at least
  one candidate is valid; when none is, every candidate is counted twice.
\<close>

lemma addTracksToPlaylist_total:
  "resultTotal (fst (addTracksToPlaylist apiClient playlistId trackIds log))
     = (if filter validTrackId trackIds = [] then 2 * length trackIds else length trackIds)"
proof (cases "filter validTrackId trackIds = []")
  case True
  then show ?thesis
    by (simp add: addTracksToPlaylist_def resultTotal_def)
next
  case False
  let ?v = "map stringOf (filter validTrackId trackIds)"
  obtain s f l where r: "addTracksLoop apiClient playlistId ?v 0 0 0 log = ((s, f), l)"
    by (metis prod.collapse)
  with addTracksLoop_sum[of apiClient playlistId ?v 0 0 0 log]
  have "s + f = length (filter validTrackId trackIds)" by simp
  moreover have "length (filter validTrackId trackIds) \<le> length trackIds" by simp
  ultimately show ?thesis using False r
    by (simp add: addTracksToPlaylist_def resultTotal_def Let_def)
qed

text \<open>
  Claim C2. The claim asks that successful, failed and skipped add up to the number of
  candidates. Evaluating the function on the two invalid candidates \<open>''\<close> and \<open>null\<close>:
  the early return counts both as failed and both as skipped, so the counters add up to 4.
\<close>

theorem addTracksToPlaylist_all_invalid:
  "fst (addTracksToPlaylist apiClient playlistId [JString [], JNull] log)
     = \<lparr> res_successful = 0, res_failed = 2, res_skipped = 2 \<rparr> \<and>
   resultTotal (fst (addTracksToPlaylist apiClient playlistId [JString [], JNull] log)) = 4 \<and>
   length [JString [], JNull] = 2"
  by (simp add: addTracksToPlaylist_def resultTotal_def validTrackId_def)


section \<open>Properties of the export file names\<close>

lemma generateUniqueFilenameLoop_fresh:
  "\<not> existsSync dir (generateUniqueFilenameLoop dir sanitizedBase extension filename counter)"
proof (induction dir sanitizedBase extension filename counter rule: generateUniqueFilenameLoop.induct)
  case (1 dir sanitizedBase extension filename counter)
  then show ?case
    by (subst generateUniqueFilenameLoop.simps) simp
qed

lemma generateUniqueFilenameLoop_numbered:
  "existsSync dir filename \<Longrightarrow>
   \<exists>k\<ge>counter.
      generateUniqueFilenameLoop dir sanitizedBase extension filename counter
        = numberedName sanitizedBase extension k \<and>
      (\<forall>j. counter \<le> j \<and> j < k \<longrightarrow> existsSync dir (numberedName sanitizedBase extension j))"
proof (induction dir sanitizedBase extension filename counter rule: generateUniqueFilenameLoop.induct)
  case (1 dir sanitizedBase extension filename counter)
  let ?n = "numberedName sanitizedBase extension counter"
  show ?case
  proof (cases "existsSync dir ?n")
    case False
    with "1.prems" have "generateUniqueFilenameLoop dir sanitizedBase extension filename counter = ?n"
      by (subst generateUniqueFilenameLoop.simps, simp, subst generateUniqueFilenameLoop.simps, simp)
    then show ?thesis by (intro exI[of _ counter]) auto
  next
    case True
    from "1.IH"[OF "1.prems" True] obtain k where k: "counter + 1 \<le> k"
      "generateUniqueFilenameLoop dir sanitizedBase extension ?n (counter + 1)
         = numberedName sanitizedBase extension k"
      "\<forall>j. counter + 1 \<le> j \<and> j < k \<longrightarrow> existsSync dir (numberedName sanitizedBase extension j)"
      by blast
    have "\<forall>j. counter \<le> j \<and> j < k \<longrightarrow> existsSync dir (numberedName sanitizedBase extension j)"
    proof (intro allI impI)
      fix j assume j: "counter \<le> j \<and> j < k"
      show "existsSync dir (numberedName sanitizedBase extension j)"
      proof (cases "j = counter")
        case True
        with \<open>existsSync dir ?n\<close> show ?thesis by simp
      next
        case False
        with j k(3) show ?thesis by simp
      qed
    qed
    moreover from "1.prems" k(2)
    have "generateUniqueFilenameLoop dir sanitizedBase extension filename counter
            = numberedName sanitizedBase extension k"
      by (subst generateUniqueFilenameLoop.simps) simp
    ultimately show ?thesis using k(1) by (intro exI[of _ k]) simp
  qed
qed

text \<open>
  Claim C8, amended. The generated name is never the name of an existing file. The name
  tried first is the sanitized playlist name with the extension: it is returned when it
  is free, and when it exists the result is the numbered name with the least index from 1
  on that is free. For the playlist \<open>My Playlist\<close> the first name is \<open>My_Playlist.csv\<close>
  and the name with index 1 is \<open>My_Playlist_1.csv\<close>.
\<close>

theorem generateUniqueFilename_free_name:
  "\<not> existsSync dir (generateUniqueFilename baseFilename extension dir) \<and>
   (\<not> existsSync dir (sanitizeFilename baseFilename @ extension) \<longrightarrow>
      generateUniqueFilename baseFilename extension dir = sanitizeFilename baseFilename @ extension) \<and>
   (existsSync dir (sanitizeFilename baseFilename @ extension) \<longrightarrow>
      (\<exists>k\<ge>1. generateUniqueFilename baseFilename extension dir
                = numberedName (sanitizeFilename baseFilename) extension k \<and>
             (\<forall>j. 1 \<le> j \<and> j < k \<longrightarrow>
                existsSync dir (numberedName (sanitizeFilename baseFilename) extension j)))) \<and>
   sanitizeFilename ''My Playlist'' @ ''.csv'' = ''My_Playlist.csv'' \<and>
   numberedName (sanitizeFilename ''My Playlist'') ''.csv'' 1 = ''My_Playlist_1.csv''"
proof (intro conjI impI)
  show "\<not> existsSync dir (generateUniqueFilename baseFilename extension dir)"
    by (simp add: generateUniqueFilename_def Let_def generateUniqueFilenameLoop_fresh)
next
  assume "\<not> existsSync dir (sanitizeFilename baseFilename @ extension)"
  then show "generateUniqueFilename baseFilename extension dir
               = sanitizeFilename baseFilename @ extension"
    unfolding generateUniqueFilename_def Let_def
    by (subst generateUniqueFilenameLoop.simps) simp
next
  assume "existsSync dir (sanitizeFilename baseFilename @ extension)"
  from generateUniqueFilenameLoop_numbered[OF this, of 1 "sanitizeFilename baseFilename" extension]
  show "\<exists>k\<ge>1. generateUniqueFilename baseFilename extension dir
                = numberedName (sanitizeFilename baseFilename) extension k \<and>
             (\<forall>j. 1 \<le> j \<and> j < k \<longrightarrow>
                existsSync dir (numberedName (sanitizeFilename baseFilename) extension j))"
    by (simp add: generateUniqueFilename_def Let_def)
next
  show "sanitizeFilename ''My Playlist'' @ ''.csv'' = ''My_Playlist.csv''" by code_simp
next
  show "numberedName (sanitizeFilename ''My Playlist'') ''.csv'' 1 = ''My_Playlist_1.csv''"
    by code_simp
qed

theorem generateUniqueFilename_free_name_witness:
  "existsSync [''My_Playlist.csv'', ''notes.txt''] (sanitizeFilename ''My Playlist'' @ ''.csv'') \<and>
   \<not> existsSync [''My_Playlist.csv'', ''notes.txt'']
       (generateUniqueFilename ''My Playlist'' ''.csv'' [''My_Playlist.csv'', ''notes.txt'']) \<and>
   generateUniqueFilename ''My Playlist'' ''.csv'' [''My_Playlist.csv'', ''notes.txt'']
     = ''My_Playlist_1.csv'' \<and>
   generateUniqueFilename ''My Playlist'' ''.csv'' [''My_Playlist_1.csv'', ''My_Playlist.csv'']
     = ''My_Playlist_2.csv''"
proof -
  have e: "existsSync [''My_Playlist.csv'', ''notes.txt''] (sanitizeFilename ''My Playlist'' @ ''.csv'')"
    by code_simp
  have g1: "generateUniqueFilename ''My Playlist'' ''.csv'' [''My_Playlist.csv'', ''notes.txt'']
     = ''My_Playlist_1.csv''" by code_simp
  have g2: "generateUniqueFilename ''My Playlist'' ''.csv'' [''My_Playlist_1.csv'', ''My_Playlist.csv'']
     = ''My_Playlist_2.csv''" by code_simp
  from generateUniqueFilename_free_name[of "[''My_Playlist.csv'', ''notes.txt'']" "''My Playlist''" "''.csv''"]
  have "\<not> existsSync [''My_Playlist.csv'', ''notes.txt'']
       (generateUniqueFilename ''My Playlist'' ''.csv'' [''My_Playlist.csv'', ''notes.txt''])"
    by blast
  with e g1 g2 show ?thesis by blast
qed

text \<open>
  The claim as stated fails: in a directory that holds \<open>My Playlist.csv\<close> (with the
  space) the export of \<open>My Playlist\<close> is named \<open>My_Playlist.csv\<close>, not
  \<open>My_Playlist_1.csv\<close>, because existence is checked for the sanitized name.
\<close>

theorem generateUniqueFilename_unsanitized_counterexample:
  "existsSync [''My Playlist.csv''] ''My Playlist.csv'' \<and>
   generateUniqueFilename ''My Playlist'' ''.csv'' [''My Playlist.csv''] = ''My_Playlist.csv'' \<and>
   generateUniqueFilename ''My Playlist'' ''.csv'' [''My Playlist.csv''] \<noteq> ''My_Playlist_1.csv''"
  by code_simp


section \<open>Properties of the export rows\<close>

lemma padStart_twoDigits:
  assumes "n < 100"
  shows "padStart 2 (CHR ''0'') (natToString n) = twoDigits n"
proof (cases "n < 10")
  case True
  then have "natToString n = [digitChar n]" by (subst natToString.simps) simp
  moreover have "digitChar 0 = CHR ''0''" by code_simp
  ultimately show ?thesis using True by (simp add: padStart_def twoDigits_def)
next
  case False
  with assms have "n div 10 < 10" by simp
  then have "natToString (n div 10) = [digitChar (n div 10)]"
    by (subst natToString.simps) simp
  with False have "natToString n = [digitChar (n div 10), digitChar (n mod 10)]"
    by (subst natToString.simps) simp
  with \<open>n div 10 < 10\<close> show ?thesis by (simp add: padStart_def twoDigits_def)
qed

lemma formatDuration_nonneg:
  assumes "0 \<le> ms"
  shows "formatDuration ms = durationText ms"
proof -
  let ?t = "ms div 1000"
  from assms have t: "0 \<le> ?t" by simp
  then have m: "numberToString (?t div 60) = natToString (nat ?t div 60)"
    by (simp add: numberToString_def nat_div_distrib)
  from t have r: "jsRemainder ?t 60 = ?t mod 60" by (simp add: jsRemainder_def)
  from t have s: "numberToString (?t mod 60) = natToString (nat ?t mod 60)"
    by (simp add: numberToString_def nat_mod_distrib)
  have "nat ?t mod 60 < 100" by (rule less_trans[of _ 60]) simp_all
  then have "padStart 2 (CHR ''0'') (natToString (nat ?t mod 60)) = twoDigits (nat ?t mod 60)"
    by (rule padStart_twoDigits)
  with m r s show ?thesis
    by (simp add: formatDuration_def durationText_def Let_def)
qed

lemma formatTrackRow_duration:
  "formatTrackRow env t ''Track Duration'' =
     Some (case track_duration_ms t of None \<Rightarrow> []
           | Some ms \<Rightarrow> if ms \<noteq> 0 then formatDuration ms else [])"
  by (simp add: formatTrackRow_def Let_def)

text \<open>
  Claim C10, amended. For every track of the export whose duration is positive, the
  \<open>Track Duration\<close> field is the duration as minutes, colon, seconds in two digits
  (233000 ms gives \<open>3:53\<close>); for a track whose duration is absent or 0 the field is empty.
\<close>

theorem formatTracksForCsv_duration:
  assumes "i < length tracks"
  shows "(\<forall>ms. track_duration_ms (tracks ! i) = Some ms \<and> 0 < ms \<longrightarrow>
            (formatTracksForCsv env tracks ! i) ''Track Duration'' = Some (durationText ms)) \<and>
         (track_duration_ms (tracks ! i) = None \<or> track_duration_ms (tracks ! i) = Some 0 \<longrightarrow>
            (formatTracksForCsv env tracks ! i) ''Track Duration'' = Some []) \<and>
         durationText 233000 = ''3:53''"
proof (intro conjI allI impI)
  fix ms assume "track_duration_ms (tracks ! i) = Some ms \<and> 0 < ms"
  with assms show "(formatTracksForCsv env tracks ! i) ''Track Duration'' = Some (durationText ms)"
    by (simp add: formatTracksForCsv_def formatTrackRow_duration formatDuration_nonneg)
next
  assume "track_duration_ms (tracks ! i) = None \<or> track_duration_ms (tracks ! i) = Some 0"
  with assms show "(formatTracksForCsv env tracks ! i) ''Track Duration'' = Some []"
    by (auto simp: formatTracksForCsv_def formatTrackRow_duration)
next
  show "durationText 233000 = ''3:53''" by code_simp
qed

theorem formatTracksForCsv_duration_witness:
  "0 < length [yesterdayUndated, yesterdayOnCompilation] \<and>
   track_duration_ms ([yesterdayUndated, yesterdayOnCompilation] ! 0) = Some 233000 \<and>
   (formatTracksForCsv exampleEnv [yesterdayUndated, yesterdayOnCompilation] ! 0) ''Track Duration''
     = Some ''3:53'' \<and>
   track_duration_ms ([yesterdayUndated, yesterdayOnCompilation] ! 1) = Some 0 \<and>
   (formatTracksForCsv exampleEnv [yesterdayUndated, yesterdayOnCompilation] ! 1) ''Track Duration''
     = Some []"
proof -
  have d0: "track_duration_ms ([yesterdayUndated, yesterdayOnCompilation] ! 0) = Some 233000"
    by (simp add: yesterdayUndated_def)
  have d1: "track_duration_ms ([yesterdayUndated, yesterdayOnCompilation] ! 1) = Some 0"
    by (simp add: yesterdayOnCompilation_def)
  from formatTracksForCsv_duration[of 0 "[yesterdayUndated, yesterdayOnCompilation]" exampleEnv] d0
  have a: "(formatTracksForCsv exampleEnv [yesterdayUndated, yesterdayOnCompilation] ! 0)
             ''Track Duration'' = Some ''3:53''"
    by simp
  from formatTracksForCsv_duration[of 1 "[yesterdayUndated, yesterdayOnCompilation]" exampleEnv] d1
  have b: "(formatTracksForCsv exampleEnv [yesterdayUndated, yesterdayOnCompilation] ! 1)
             ''Track Duration'' = Some []"
    by simp
  from d0 d1 a b show ?thesis by simp
qed

text \<open>
  The claim as stated fails for a track of duration 0: the field is empty, where the
  format of the claim gives \<open>0:00\<close>.
\<close>

theorem formatTracksForCsv_zero_duration_counterexample:
  "track_duration_ms yesterdayOnCompilation = Some 0 \<and>
   (formatTracksForCsv exampleEnv [yesterdayOnCompilation] ! 0) ''Track Duration'' = Some [] \<and>
   durationText 0 = ''0:00''"
  by code_simp


end
